theory Spec2Isabelle
  imports Main
begin

section \<open>Python strings\<close>

text \<open>
  A Python \<^verbatim>\<open>str\<close> is a sequence of Unicode code points, so a string is a list of
  code points here and its length counts code points. \<open>ascii\<close> embeds an ASCII
  literal; the backslash is written by its code point.
\<close>

type_synonym codepoint = nat
type_synonym str = "codepoint list"

definition ascii :: "string \<Rightarrow> str" where
  "ascii s = map of_char s"

definition backslash :: codepoint where
  "backslash = 0x5C"

definition tilde :: codepoint where
  "tilde = 0x7E"

fun in_ranges :: "(codepoint \<times> codepoint) list \<Rightarrow> codepoint \<Rightarrow> bool" where
  "in_ranges [] c = False"
| "in_ranges ((lo, hi) # rs) c = ((lo \<le> c \<and> c \<le> hi) \<or> in_ranges rs c)"

section \<open>Regular expressions: the fragment \<^verbatim>\<open>re.sub\<close> is called with\<close>

text \<open>
  The pattern of \<^verbatim>\<open>_normalize_space_key\<close> is a sequence of an anchor and
  single-character items, compiled with \<^verbatim>\<open>re.IGNORECASE\<close> and without
  \<^verbatim>\<open>re.MULTILINE\<close>. An item of a pattern is the anchor \<^verbatim>\<open>^\<close>, which holds
  at position 0 only, or a set of code points that consumes one character.
\<close>

datatype atom = Bol | In "codepoint \<Rightarrow> bool"

text \<open>
  \<open>match_here p pos rest\<close> matches the pattern \<open>p\<close> at position \<open>pos\<close>, where
  \<open>rest\<close> is the text from \<open>pos\<close> on; it returns the text after the match.
\<close>

fun match_here :: "atom list \<Rightarrow> nat \<Rightarrow> str \<Rightarrow> str option" where
  "match_here [] pos rest = Some rest"
| "match_here (Bol # p) pos rest = (if pos = 0 then match_here p pos rest else None)"
| "match_here (In cls # p) pos [] = None"
| "match_here (In cls # p) pos (c # cs) = (if cls c then match_here p (Suc pos) cs else None)"

text \<open>
  \<^verbatim>\<open>re.sub(pattern, repl, string, count=1)\<close>: the leftmost match is replaced by
  \<open>repl\<close>, the text before and after it is kept, and a string without a match is
  returned as it is.
\<close>

fun sub_first :: "atom list \<Rightarrow> str \<Rightarrow> nat \<Rightarrow> str \<Rightarrow> str" where
  "sub_first p repl pos [] =
     (case match_here p pos [] of Some rest' \<Rightarrow> repl @ rest' | None \<Rightarrow> [])"
| "sub_first p repl pos (c # cs) =
     (case match_here p pos (c # cs) of
        Some rest' \<Rightarrow> repl @ rest'
      | None \<Rightarrow> c # sub_first p repl (Suc pos) cs)"

definition re_sub_count1 :: "atom list \<Rightarrow> str \<Rightarrow> str \<Rightarrow> str" where
  "re_sub_count1 p repl s = sub_first p repl 0 s"

text \<open>
  Under \<^verbatim>\<open>re.IGNORECASE\<close> a literal of a \<^verbatim>\<open>str\<close> pattern matches every character
  whose lower case is the literal's lower case, and the characters the \<^verbatim>\<open>re\<close>
  module adds to it: the dotless i (U+0131) for \<^verbatim>\<open>i\<close>, the long s (U+017F) for
  \<^verbatim>\<open>s\<close>. The capital I with dot above (U+0130) lowers to \<^verbatim>\<open>i\<close> and the Kelvin
  sign (U+212A) to \<^verbatim>\<open>k\<close>. \<open>lit_ignorecase\<close> is this relation for an ASCII literal.
\<close>

definition ascii_lower :: "codepoint \<Rightarrow> codepoint" where
  "ascii_lower c = (if 0x41 \<le> c \<and> c \<le> 0x5A then c + 0x20 else c)"

definition lit_ignorecase :: "codepoint \<Rightarrow> codepoint \<Rightarrow> bool" where
  "lit_ignorecase l c =
     (let lo = ascii_lower l in
      if 0x61 \<le> lo \<and> lo \<le> 0x7A then
        c = lo \<or> c + 0x20 = lo
        \<or> (lo = 0x69 \<and> (c = 0x130 \<or> c = 0x131))
        \<or> (lo = 0x6B \<and> c = 0x212A)
        \<or> (lo = 0x73 \<and> c = 0x17F)
      else c = l)"

text \<open>
  The set \<^verbatim>\<open>[A-Z]\<close> under \<^verbatim>\<open>re.IGNORECASE\<close>: the 52 ASCII letters and the
  four letters U+0130, U+0131, U+017F and U+212A.
\<close>

definition upper_range_ignorecase :: "codepoint \<Rightarrow> bool" where
  "upper_range_ignorecase c =
     ((0x41 \<le> c \<and> c \<le> 0x5A) \<or> (0x61 \<le> c \<and> c \<le> 0x7A)
      \<or> c = 0x130 \<or> c = 0x131 \<or> c = 0x17F \<or> c = 0x212A)"

text \<open>The pattern \<^verbatim>\<open>r"^[A-Z]:\\Users\\"\<close> with \<^verbatim>\<open>flags=re.IGNORECASE\<close>.\<close>

definition drive_pattern :: "atom list" where
  "drive_pattern =
     [Bol, In upper_range_ignorecase, In (lit_ignorecase 0x3A), In (lit_ignorecase backslash),
      In (lit_ignorecase 0x55), In (lit_ignorecase 0x73), In (lit_ignorecase 0x65),
      In (lit_ignorecase 0x72), In (lit_ignorecase 0x73), In (lit_ignorecase backslash)]"

text \<open>
  \<^verbatim>\<open>_normalize_space_key\<close> (the leading underscore is dropped: an Isabelle name
  starts with a letter).
\<close>

definition normalize_space_key :: "str \<Rightarrow> str" where
  "normalize_space_key space_key = re_sub_count1 drive_pattern [tilde] space_key"

text \<open>The characters the pattern asks for at the start of a key, one set for each position.\<close>

definition drive_prefix :: "str \<Rightarrow> bool" where
  "drive_prefix s =
     (case s of
        c0 # c1 # c2 # c3 # c4 # c5 # c6 # c7 # c8 # rest \<Rightarrow>
          upper_range_ignorecase c0 \<and> c1 = 0x3A \<and> c2 = 0x5C
          \<and> (c3 = 0x55 \<or> c3 = 0x75)
          \<and> (c4 = 0x53 \<or> c4 = 0x73 \<or> c4 = 0x17F)
          \<and> (c5 = 0x45 \<or> c5 = 0x65)
          \<and> (c6 = 0x52 \<or> c6 = 0x72)
          \<and> (c7 = 0x53 \<or> c7 = 0x73 \<or> c7 = 0x17F)
          \<and> c8 = 0x5C
      | _ \<Rightarrow> False)"

section \<open>Digits, whitespace and \<^verbatim>\<open>int()\<close>\<close>

text \<open>
  \<^verbatim>\<open>str.isdigit\<close> is about the characters whose Unicode property Numeric_Type is
  Decimal or Digit; \<^verbatim>\<open>int()\<close> reads the characters of Numeric_Type Decimal only.
  The tables are those of the Unicode Character Database 14.0.0: the decimal digits
  (general category Nd, in runs of ten from zero to nine), the other digits
  (superscripts, subscripts, circled and dotted digits, ...), and the characters of
  \<^verbatim>\<open>str.isspace\<close>.
\<close>

definition decimal_ranges :: "(codepoint \<times> codepoint) list" where
  "decimal_ranges =
     [(0x30, 0x39), (0x660, 0x669), (0x6F0, 0x6F9), (0x7C0, 0x7C9), (0x966, 0x96F),
      (0x9E6, 0x9EF), (0xA66, 0xA6F), (0xAE6, 0xAEF), (0xB66, 0xB6F), (0xBE6, 0xBEF),
      (0xC66, 0xC6F), (0xCE6, 0xCEF), (0xD66, 0xD6F), (0xDE6, 0xDEF), (0xE50, 0xE59),
      (0xED0, 0xED9), (0xF20, 0xF29), (0x1040, 0x1049), (0x1090, 0x1099), (0x17E0, 0x17E9),
      (0x1810, 0x1819), (0x1946, 0x194F), (0x19D0, 0x19D9), (0x1A80, 0x1A89), (0x1A90, 0x1A99),
      (0x1B50, 0x1B59), (0x1BB0, 0x1BB9), (0x1C40, 0x1C49), (0x1C50, 0x1C59), (0xA620, 0xA629),
      (0xA8D0, 0xA8D9), (0xA900, 0xA909), (0xA9D0, 0xA9D9), (0xA9F0, 0xA9F9), (0xAA50, 0xAA59),
      (0xABF0, 0xABF9), (0xFF10, 0xFF19), (0x104A0, 0x104A9), (0x10D30, 0x10D39),
      (0x11066, 0x1106F), (0x110F0, 0x110F9), (0x11136, 0x1113F), (0x111D0, 0x111D9),
      (0x112F0, 0x112F9), (0x11450, 0x11459), (0x114D0, 0x114D9), (0x11650, 0x11659),
      (0x116C0, 0x116C9), (0x11730, 0x11739), (0x118E0, 0x118E9), (0x11950, 0x11959),
      (0x11C50, 0x11C59), (0x11D50, 0x11D59), (0x11DA0, 0x11DA9), (0x16A60, 0x16A69),
      (0x16AC0, 0x16AC9), (0x16B50, 0x16B59), (0x1D7CE, 0x1D7FF), (0x1E140, 0x1E149),
      (0x1E2F0, 0x1E2F9), (0x1E950, 0x1E959), (0x1FBF0, 0x1FBF9)]"

definition other_digit_ranges :: "(codepoint \<times> codepoint) list" where
  "other_digit_ranges =
     [(0xB2, 0xB3), (0xB9, 0xB9), (0x1369, 0x1371), (0x19DA, 0x19DA), (0x2070, 0x2070),
      (0x2074, 0x2079), (0x2080, 0x2089), (0x2460, 0x2468), (0x2474, 0x247C), (0x2488, 0x2490),
      (0x24EA, 0x24EA), (0x24F5, 0x24FD), (0x24FF, 0x24FF), (0x2776, 0x277E), (0x2780, 0x2788),
      (0x278A, 0x2792), (0x10A40, 0x10A43), (0x10E60, 0x10E68), (0x11052, 0x1105A),
      (0x1F100, 0x1F10A)]"

definition whitespace_ranges :: "(codepoint \<times> codepoint) list" where
  "whitespace_ranges =
     [(0x9, 0xD), (0x1C, 0x20), (0x85, 0x85), (0xA0, 0xA0), (0x1680, 0x1680), (0x2000, 0x200A),
      (0x2028, 0x2029), (0x202F, 0x202F), (0x205F, 0x205F), (0x3000, 0x3000)]"

definition isdecimal_char :: "codepoint \<Rightarrow> bool" where
  "isdecimal_char c = in_ranges decimal_ranges c"

definition isdigit_char :: "codepoint \<Rightarrow> bool" where
  "isdigit_char c = (in_ranges decimal_ranges c \<or> in_ranges other_digit_ranges c)"

definition isspace_char :: "codepoint \<Rightarrow> bool" where
  "isspace_char c = in_ranges whitespace_ranges c"

text \<open>The value of a decimal digit: its offset in its run of ten.\<close>

fun decimal_in :: "(codepoint \<times> codepoint) list \<Rightarrow> codepoint \<Rightarrow> nat option" where
  "decimal_in [] c = None"
| "decimal_in ((lo, hi) # rs) c =
     (if lo \<le> c \<and> c \<le> hi then Some ((c - lo) mod 10) else decimal_in rs c)"

definition to_decimal :: "codepoint \<Rightarrow> nat option" where
  "to_decimal c = decimal_in decimal_ranges c"

text \<open>
  \<^verbatim>\<open>str.isdigit()\<close>: true when every character is a digit and there is at least one
  character.
\<close>

definition isdigit :: "str \<Rightarrow> bool" where
  "isdigit s = (s \<noteq> [] \<and> list_all isdigit_char s)"

text \<open>
  The exceptions of the program: the \<^verbatim>\<open>ValueError\<close> of \<^verbatim>\<open>int()\<close>, and whatever a
  collaborator raises, which the code of the commands never inspects.
\<close>

datatype exn = ValueError | Raised string

text \<open>
  \<^verbatim>\<open>int(s)\<close> for a string, base 10: whitespace is stripped at both ends (the
  characters of \<^verbatim>\<open>str.isspace\<close> but the four separators U+001C to U+001F, which
  \<^verbatim>\<open>int\<close> does not take for whitespace), one sign is accepted, and the rest is
  decimal digits with single underscores between digits.
  \<open>scan_digits\<close> reads that rest; its flag says that the character before was a digit,
  and it returns the number of digits with the value.
\<close>

definition int_space_char :: "codepoint \<Rightarrow> bool" where
  "int_space_char c = (isspace_char c \<and> (c < 0x1C \<or> 0x1F < c))"

definition strip :: "str \<Rightarrow> str" where
  "strip s = rev (dropWhile int_space_char (rev (dropWhile int_space_char s)))"

fun scan_digits :: "bool \<Rightarrow> nat \<Rightarrow> int \<Rightarrow> str \<Rightarrow> (nat \<times> int) option" where
  "scan_digits prev n v [] = (if prev then Some (n, v) else None)"
| "scan_digits prev n v (c # cs) =
     (if c = 0x5F then (if prev then scan_digits False n v cs else None)
      else case to_decimal c of
             None \<Rightarrow> None
           | Some d \<Rightarrow> scan_digits True (Suc n) (10 * v + int d) cs)"

text \<open>
  CPython refuses to convert a string of more than \<^verbatim>\<open>sys.get_int_max_str_digits()\<close>
  digits (4300 unless configured; 0 switches the check off; strings of up to 640
  digits are never refused). The limit is the parameter \<open>max_str_digits\<close> of the
  model.
\<close>

definition digits_refused :: "nat \<Rightarrow> nat \<Rightarrow> bool" where
  "digits_refused max_str_digits n = (640 < n \<and> 0 < max_str_digits \<and> max_str_digits < n)"

definition default_max_str_digits :: nat where
  "default_max_str_digits = 4300"

definition py_int :: "nat \<Rightarrow> str \<Rightarrow> exn + int" where
  "py_int max_str_digits s =
     (let t = strip s;
          signed = (t \<noteq> [] \<and> (hd t = 0x2B \<or> hd t = 0x2D));
          negative = (t \<noteq> [] \<and> hd t = 0x2D);
          body = (if signed then tl t else t)
      in case scan_digits False 0 0 body of
           None \<Rightarrow> Inl ValueError
         | Some (n, v) \<Rightarrow>
             if digits_refused max_str_digits n then Inl ValueError
             else Inr (if negative then - v else v))"

text \<open>
  The number a string of decimal digits denotes, and the number the spec's
  \<^verbatim>\<open>parseInt\<close> reads from a string of ASCII digits.
\<close>

definition ascii_digit :: "codepoint \<Rightarrow> bool" where
  "ascii_digit c = (0x30 \<le> c \<and> c \<le> 0x39)"

definition digit_of :: "codepoint \<Rightarrow> nat" where
  "digit_of c = (case to_decimal c of Some d \<Rightarrow> d | None \<Rightarrow> 0)"

definition decimal_number :: "str \<Rightarrow> int" where
  "decimal_number s = foldl (\<lambda>v c. 10 * v + int (digit_of c)) 0 s"

definition parseInt :: "str \<Rightarrow> int" where
  "parseInt s = foldl (\<lambda>v c. 10 * v + (int c - 0x30)) 0 s"

section \<open>Collaborators and the log of their calls\<close>

text \<open>
  The commands call \<^verbatim>\<open>set_setting\<close> and the classes \<^verbatim>\<open>Page\<close>, \<^verbatim>\<open>Space\<close> and
  \<^verbatim>\<open>Organization\<close>, which are imported from other modules. They are the fields of
  a record: each takes the state of the world (the settings store, the wiki, the
  disk) and returns its result or the exception it raises, with the new state. The
  types of the world and of the three entities are parameters.
\<close>

type_synonym path = str

record ('w, 'p, 's, 'o) collaborators =
  set_setting :: "str \<Rightarrow> path \<Rightarrow> 'w \<Rightarrow> (exn + unit) \<times> 'w"
  Page_from_id :: "int \<Rightarrow> 'w \<Rightarrow> (exn + 'p) \<times> 'w"
  Page_from_url :: "str \<Rightarrow> 'w \<Rightarrow> (exn + 'p) \<times> 'w"
  Page_export :: "'p \<Rightarrow> 'w \<Rightarrow> (exn + unit) \<times> 'w"
  Page_export_with_descendants :: "'p \<Rightarrow> 'w \<Rightarrow> (exn + unit) \<times> 'w"
  Space_from_key :: "str \<Rightarrow> 'w \<Rightarrow> (exn + 's) \<times> 'w"
  Space_export :: "'s \<Rightarrow> 'w \<Rightarrow> (exn + unit) \<times> 'w"
  Organization_from_api :: "'w \<Rightarrow> (exn + 'o) \<times> 'w"
  Organization_export :: "'o \<Rightarrow> 'w \<Rightarrow> (exn + unit) \<times> 'w"

text \<open>
  Every call of a collaborator is logged when it ends, with its arguments and its
  outcome, so that the order and the number of the calls can be stated.
\<close>

datatype ('p, 's, 'o) event =
    MeasureEnter str
  | MeasureExit str
  | SetSetting str path "exn + unit"
  | PageFromId int "exn + 'p"
  | PageFromUrl str "exn + 'p"
  | PageExport 'p "exn + unit"
  | PageExportWithDescendants 'p "exn + unit"
  | SpaceFromKey str "exn + 's"
  | SpaceExport 's "exn + unit"
  | OrganizationFromApi "exn + 'o"
  | OrganizationExport 'o "exn + unit"

text \<open>
  A piece of a command, run from a state of the world, gives its result or the
  exception that ended it, the calls it made, and the state it left.
\<close>

type_synonym ('a, 'ev, 'w) run = "(exn + 'a) \<times> 'ev list \<times> 'w"

definition outcome :: "('a, 'ev, 'w) run \<Rightarrow> exn + 'a" where
  "outcome m = fst m"

definition events :: "('a, 'ev, 'w) run \<Rightarrow> 'ev list" where
  "events m = fst (snd m)"

definition call :: "((exn + 'a) \<Rightarrow> 'ev) \<Rightarrow> ('w \<Rightarrow> (exn + 'a) \<times> 'w) \<Rightarrow> 'w \<Rightarrow> ('a, 'ev, 'w) run" where
  "call ev f w = (case f w of (r, w') \<Rightarrow> (r, [ev r], w'))"

text \<open>
  Sequencing: an exception of the first part ends the whole, as nothing in the
  commands catches it; otherwise the second part runs from the state the first left.
\<close>

definition then_do ::
  "('a, 'ev, 'w) run \<Rightarrow> ('a \<Rightarrow> 'w \<Rightarrow> ('b, 'ev, 'w) run) \<Rightarrow> ('b, 'ev, 'w) run" where
  "then_do m k =
     (case m of
        (Inl e, evs, w) \<Rightarrow> (Inl e, evs, w)
      | (Inr a, evs, w) \<Rightarrow> (case k a w of (r, evs', w') \<Rightarrow> (r, evs @ evs', w')))"

text \<open>A \<^verbatim>\<open>for\<close> loop over a list: the body runs for each element in order.\<close>

fun for_each :: "('a \<Rightarrow> 'w \<Rightarrow> (unit, 'ev, 'w) run) \<Rightarrow> 'a list \<Rightarrow> 'w \<Rightarrow> (unit, 'ev, 'w) run" where
  "for_each body [] w = (Inr (), [], w)"
| "for_each body (x # xs) w =
     (case body x w of
        (Inl e, evs, w') \<Rightarrow> (Inl e, evs, w')
      | (Inr u, evs, w') \<Rightarrow>
          (case for_each body xs w' of (r, evs', w'') \<Rightarrow> (r, evs @ evs', w'')))"

text \<open>\<^verbatim>\<open>sep.join(xs)\<close>.\<close>

fun join :: "str \<Rightarrow> str list \<Rightarrow> str" where
  "join sep [] = []"
| "join sep [x] = x"
| "join sep (x # y # ys) = x @ sep @ join sep (y # ys)"

text \<open>
  Modelled from the spec: the context manager \<^verbatim>\<open>measure\<close> of
  \<^verbatim>\<open>utils/measure_time.py\<close>, which is not among the sources. The spec has each
  command wrap its whole batch in one measured scope with a label, and the scope is
  for observation only: it changes neither the control flow nor the errors. So the
  scope is entered, the body runs, the scope is left, and the outcome of the body is
  the outcome of the whole.
\<close>

definition measure_ctx :: "str \<Rightarrow> ('a, ('p, 's, 'o) event, 'w) run \<Rightarrow> ('a, ('p, 's, 'o) event, 'w) run" where
  "measure_ctx label body =
     (case body of (r, evs, w) \<Rightarrow> (r, [MeasureEnter label] @ evs @ [MeasureExit label], w))"

section \<open>The commands of \<^verbatim>\<open>main.py\<close>\<close>

definition output_path_key :: str where
  "output_path_key = ascii ''export.output_path''"

definition override_output_path_config ::
  "('w, 'p, 's, 'o) collaborators \<Rightarrow> path option \<Rightarrow> 'w \<Rightarrow> (unit, ('p, 's, 'o) event, 'w) run" where
  "override_output_path_config env value w =
     (case value of
        None \<Rightarrow> (Inr (), [], w)
      | Some v \<Rightarrow> call (SetSetting output_path_key v) (set_setting env output_path_key v) w)"

text \<open>
  The expression of lines 43 and 62,
  \<^verbatim>\<open>Page.from_id(int(page)) if page.isdigit() else Page.from_url(page)\<close>.
  An exception of \<^verbatim>\<open>int\<close> ends it before any constructor is called.
\<close>

definition construct_page ::
  "('w, 'p, 's, 'o) collaborators \<Rightarrow> nat \<Rightarrow> str \<Rightarrow> 'w \<Rightarrow> ('p, ('p, 's, 'o) event, 'w) run" where
  "construct_page env max_str_digits page w =
     (if isdigit page then
        (case py_int max_str_digits page of
           Inl e \<Rightarrow> (Inl e, [], w)
         | Inr n \<Rightarrow> call (PageFromId n) (Page_from_id env n) w)
      else call (PageFromUrl page) (Page_from_url env page) w)"

text \<open>
  The same expression in the two steps the spec names: \<open>resolve\<close> is its condition
  with the argument each branch computes, \<open>constructPage\<close> the constructor each
  branch calls.
\<close>

datatype page_identifier = NumericId int | Url str

definition resolve :: "nat \<Rightarrow> str \<Rightarrow> exn + page_identifier" where
  "resolve max_str_digits page =
     (if isdigit page then
        (case py_int max_str_digits page of Inl e \<Rightarrow> Inl e | Inr n \<Rightarrow> Inr (NumericId n))
      else Inr (Url page))"

definition constructPage ::
  "('w, 'p, 's, 'o) collaborators \<Rightarrow> page_identifier \<Rightarrow> 'w \<Rightarrow> ('p, ('p, 's, 'o) event, 'w) run" where
  "constructPage env ident w =
     (case ident of
        NumericId n \<Rightarrow> call (PageFromId n) (Page_from_id env n) w
      | Url u \<Rightarrow> call (PageFromUrl u) (Page_from_url env u) w)"

text \<open>The body of the loop of \<^verbatim>\<open>pages\<close>, lines 43 and 44.\<close>

definition pages_step ::
  "('w, 'p, 's, 'o) collaborators \<Rightarrow> nat \<Rightarrow> str \<Rightarrow> 'w \<Rightarrow> (unit, ('p, 's, 'o) event, 'w) run" where
  "pages_step env max_str_digits page w =
     then_do (construct_page env max_str_digits page w)
       (\<lambda>page'. call (PageExport page') (Page_export env page'))"

definition pages ::
  "('w, 'p, 's, 'o) collaborators \<Rightarrow> nat \<Rightarrow> str list \<Rightarrow> path option \<Rightarrow> 'w
     \<Rightarrow> (unit, ('p, 's, 'o) event, 'w) run" where
  "pages env max_str_digits page_args output_path w =
     measure_ctx (ascii ''Export pages '' @ join (ascii '', '') page_args)
       (then_do (override_output_path_config env output_path w)
          (\<lambda>u. for_each (pages_step env max_str_digits) page_args))"

text \<open>The body of the loop of \<^verbatim>\<open>pages_with_descendants\<close>, lines 62 and 63.\<close>

definition pages_with_descendants_step ::
  "('w, 'p, 's, 'o) collaborators \<Rightarrow> nat \<Rightarrow> str \<Rightarrow> 'w \<Rightarrow> (unit, ('p, 's, 'o) event, 'w) run" where
  "pages_with_descendants_step env max_str_digits page w =
     then_do (construct_page env max_str_digits page w)
       (\<lambda>page'. call (PageExportWithDescendants page') (Page_export_with_descendants env page'))"

definition pages_with_descendants ::
  "('w, 'p, 's, 'o) collaborators \<Rightarrow> nat \<Rightarrow> str list \<Rightarrow> path option \<Rightarrow> 'w
     \<Rightarrow> (unit, ('p, 's, 'o) event, 'w) run" where
  "pages_with_descendants env max_str_digits page_args output_path w =
     measure_ctx
       (ascii ''Export pages '' @ join (ascii '', '') page_args @ ascii '' with descendants'')
       (then_do (override_output_path_config env output_path w)
          (\<lambda>u. for_each (pages_with_descendants_step env max_str_digits) page_args))"

text \<open>The body of the loop of \<^verbatim>\<open>spaces\<close>, lines 83 and 84.\<close>

definition spaces_step ::
  "('w, 'p, 's, 'o) collaborators \<Rightarrow> str \<Rightarrow> 'w \<Rightarrow> (unit, ('p, 's, 'o) event, 'w) run" where
  "spaces_step env space_key w =
     then_do (call (SpaceFromKey space_key) (Space_from_key env space_key) w)
       (\<lambda>space. call (SpaceExport space) (Space_export env space))"

definition spaces ::
  "('w, 'p, 's, 'o) collaborators \<Rightarrow> str list \<Rightarrow> path option \<Rightarrow> 'w
     \<Rightarrow> (unit, ('p, 's, 'o) event, 'w) run" where
  "spaces env space_keys output_path w =
     (let normalized_space_keys = map normalize_space_key space_keys in
      measure_ctx (ascii ''Export spaces '' @ join (ascii '', '') normalized_space_keys)
        (then_do (override_output_path_config env output_path w)
           (\<lambda>u. for_each (spaces_step env) normalized_space_keys)))"

text \<open>The two statements of \<^verbatim>\<open>all_spaces\<close> after the override, lines 99 and 100.\<close>

definition all_spaces_step ::
  "('w, 'p, 's, 'o) collaborators \<Rightarrow> 'w \<Rightarrow> (unit, ('p, 's, 'o) event, 'w) run" where
  "all_spaces_step env w =
     then_do (call OrganizationFromApi (Organization_from_api env) w)
       (\<lambda>org. call (OrganizationExport org) (Organization_export env org))"

definition all_spaces ::
  "('w, 'p, 's, 'o) collaborators \<Rightarrow> path option \<Rightarrow> 'w \<Rightarrow> (unit, ('p, 's, 'o) event, 'w) run" where
  "all_spaces env output_path w =
     measure_ctx (ascii ''Export all spaces'')
       (then_do (override_output_path_config env output_path w) (\<lambda>u. all_spaces_step env))"

section \<open>Reading the log\<close>

text \<open>
  What a log says: the settings written, the arguments of the calls of
  \<^verbatim>\<open>Page.from_id\<close> and of \<^verbatim>\<open>Page.from_url\<close>, the number of entities whose
  construction was called, and the number of exports that returned.
\<close>

definition setting_writes :: "('p, 's, 'o) event list \<Rightarrow> (str \<times> path) list" where
  "setting_writes evs =
     concat (map (\<lambda>ev. case ev of SetSetting k v r \<Rightarrow> [(k, v)] | _ \<Rightarrow> []) evs)"

definition from_id_calls :: "('p, 's, 'o) event list \<Rightarrow> int list" where
  "from_id_calls evs = concat (map (\<lambda>ev. case ev of PageFromId n r \<Rightarrow> [n] | _ \<Rightarrow> []) evs)"

definition from_url_calls :: "('p, 's, 'o) event list \<Rightarrow> str list" where
  "from_url_calls evs = concat (map (\<lambda>ev. case ev of PageFromUrl u r \<Rightarrow> [u] | _ \<Rightarrow> []) evs)"







section \<open>Collaborators for concrete runs\<close>

text \<open>
  A set of collaborators to run the commands on concrete inputs. The world is the
  number of calls made so far; the call of the given number raises, if a number is
  given, and every other call returns. A page records how it was constructed, a
  space is its key.
\<close>

datatype page_stub = PageOfId int | PageOfUrl str

definition stub_call :: "nat option \<Rightarrow> 'a \<Rightarrow> nat \<Rightarrow> (exn + 'a) \<times> nat" where
  "stub_call fail_at r w = (if fail_at = Some w then Inl (Raised ''stub'') else Inr r, Suc w)"

definition stub :: "nat option \<Rightarrow> (nat, page_stub, str, unit) collaborators" where
  "stub fail_at =
     \<lparr> set_setting = (\<lambda>k v. stub_call fail_at ()),
       Page_from_id = (\<lambda>n. stub_call fail_at (PageOfId n)),
       Page_from_url = (\<lambda>u. stub_call fail_at (PageOfUrl u)),
       Page_export = (\<lambda>p. stub_call fail_at ()),
       Page_export_with_descendants = (\<lambda>p. stub_call fail_at ()),
       Space_from_key = (\<lambda>k. stub_call fail_at k),
       Space_export = (\<lambda>s. stub_call fail_at ()),
       Organization_from_api = stub_call fail_at (),
       Organization_export = (\<lambda>org. stub_call fail_at ()) \<rparr>"

section \<open>The settings store\<close>

text \<open>The state a piece of a command leaves.\<close>

definition final :: "('a, 'ev, 'w) run \<Rightarrow> 'w" where
  "final m = snd (snd m)"

text \<open>
  Modelled from the spec: the settings store behind \<^verbatim>\<open>set_setting\<close>, which is in
  \<^verbatim>\<open>utils/app_data_store.py\<close> and not among the sources. The spec has the store
  hold a value for each dotted key, \<^verbatim>\<open>set_setting(dottedKey, value)\<close> set it, and the
  entity layer only read the store and never write it. \<open>store\<close> reads the store off
  the state of the world: a call of \<^verbatim>\<open>set_setting\<close> that returns has put the value
  under the key and changed no other key, and no call of \<^verbatim>\<open>Page\<close>, \<^verbatim>\<open>Space\<close> or
  \<^verbatim>\<open>Organization\<close> changes the store, whether it returns or raises.
\<close>

definition set_setting_writes ::
  "('w \<Rightarrow> str \<Rightarrow> path option) \<Rightarrow> ('w, 'p, 's, 'o) collaborators \<Rightarrow> bool" where
  "set_setting_writes store env =
     (\<forall>k v w. fst (set_setting env k v w) = Inr () \<longrightarrow>
        store (snd (set_setting env k v w)) = (store w)(k \<mapsto> v))"

definition entities_read_only ::
  "('w \<Rightarrow> str \<Rightarrow> path option) \<Rightarrow> ('w, 'p, 's, 'o) collaborators \<Rightarrow> bool" where
  "entities_read_only store env =
     ((\<forall>n w. store (snd (Page_from_id env n w)) = store w)
      \<and> (\<forall>u w. store (snd (Page_from_url env u w)) = store w)
      \<and> (\<forall>p w. store (snd (Page_export env p w)) = store w)
      \<and> (\<forall>p w. store (snd (Page_export_with_descendants env p w)) = store w)
      \<and> (\<forall>k w. store (snd (Space_from_key env k w)) = store w)
      \<and> (\<forall>s w. store (snd (Space_export env s w)) = store w)
      \<and> (\<forall>w. store (snd (Organization_from_api env w)) = store w)
      \<and> (\<forall>org w. store (snd (Organization_export env org w)) = store w))"

text \<open>
  Collaborators with a store, for concrete runs: the world is the store with the
  number of calls made so far; \<^verbatim>\<open>set_setting\<close> puts the value under the key when it
  returns, and the other calls leave the store alone. The call of the given number
  raises.
\<close>

definition store_call ::
  "nat option \<Rightarrow> 'a \<Rightarrow> (str \<Rightarrow> path option) \<times> nat \<Rightarrow> (exn + 'a) \<times> ((str \<Rightarrow> path option) \<times> nat)" where
  "store_call fail_at r w =
     (if fail_at = Some (snd w) then Inl (Raised ''stub'') else Inr r, (fst w, Suc (snd w)))"

definition store_stub ::
  "nat option \<Rightarrow> ((str \<Rightarrow> path option) \<times> nat, page_stub, str, unit) collaborators" where
  "store_stub fail_at =
     \<lparr> set_setting = (\<lambda>k v w.
         if fail_at = Some (snd w) then (Inl (Raised ''stub''), (fst w, Suc (snd w)))
         else (Inr (), ((fst w)(k \<mapsto> v), Suc (snd w)))),
       Page_from_id = (\<lambda>n. store_call fail_at (PageOfId n)),
       Page_from_url = (\<lambda>u. store_call fail_at (PageOfUrl u)),
       Page_export = (\<lambda>p. store_call fail_at ()),
       Page_export_with_descendants = (\<lambda>p. store_call fail_at ()),
       Space_from_key = (\<lambda>k. store_call fail_at k),
       Space_export = (\<lambda>s. store_call fail_at ()),
       Organization_from_api = store_call fail_at (),
       Organization_export = (\<lambda>org. store_call fail_at ()) \<rparr>"

section \<open>The space-key normalizer\<close>

text \<open>The anchor fails at every position but the first, so the search finds nothing there.\<close>

lemma sub_first_anchored: "sub_first (Bol # p) repl (Suc n) s = s"
  by (induction s arbitrary: n) simp_all

lemma re_sub_count1_anchored:
  "re_sub_count1 (Bol # p) repl s =
     (case match_here p 0 s of Some rest' \<Rightarrow> repl @ rest' | None \<Rightarrow> s)"
  by (cases s) (simp_all add: re_sub_count1_def sub_first_anchored split: option.splits)

lemma lit_ignorecase_simps:
  "lit_ignorecase 0x3A c = (c = 0x3A)"
  "lit_ignorecase backslash c = (c = 0x5C)"
  "lit_ignorecase 0x55 c = (c = 0x55 \<or> c = 0x75)"
  "lit_ignorecase 0x73 c = (c = 0x53 \<or> c = 0x73 \<or> c = 0x17F)"
  "lit_ignorecase 0x65 c = (c = 0x45 \<or> c = 0x65)"
  "lit_ignorecase 0x72 c = (c = 0x52 \<or> c = 0x72)"
  by (auto simp: lit_ignorecase_def ascii_lower_def backslash_def)

lemma match_drive_pattern:
  "match_here drive_pattern 0 s = (if drive_prefix s then Some (drop 9 s) else None)"
  by (simp add: drive_pattern_def drive_prefix_def lit_ignorecase_simps split: list.splits)

lemma normalize_space_key_prefix:
  "normalize_space_key s = (if drive_prefix s then tilde # drop 9 s else s)"
proof -
  have "normalize_space_key s =
      (case match_here (tl drive_pattern) 0 s of Some rest' \<Rightarrow> [tilde] @ rest' | None \<Rightarrow> s)"
    by (simp add: normalize_space_key_def drive_pattern_def re_sub_count1_anchored)
  moreover have "match_here (tl drive_pattern) 0 s = match_here drive_pattern 0 s"
    by (simp add: drive_pattern_def)
  ultimately show ?thesis
    by (simp add: match_drive_pattern)
qed

lemma not_drive_prefix_tilde: "\<not> drive_prefix (tilde # s)"
  by (simp add: drive_prefix_def tilde_def upper_range_ignorecase_def split: list.splits)

lemma drive_prefix_jdoe:
  "drive_prefix (ascii ''C:'' @ [backslash] @ ascii ''Users'' @ [backslash] @ ascii ''jdoe'')"
  by (simp add: drive_prefix_def ascii_def backslash_def upper_range_ignorecase_def)

lemma normalize_space_key_jdoe:
  "normalize_space_key (ascii ''C:'' @ [backslash] @ ascii ''Users'' @ [backslash] @ ascii ''jdoe'')
     = ascii ''~jdoe''"
  "normalize_space_key (ascii ''C:'' @ backslash # ascii ''Users'' @ backslash # ascii ''jdoe'')
     = ascii ''~jdoe''"
  using drive_prefix_jdoe
  by (simp_all add: normalize_space_key_prefix) (simp_all add: ascii_def tilde_def)

lemma normalize_space_key_plain:
  "normalize_space_key (ascii ''DEV'') = ascii ''DEV''"
  "normalize_space_key (ascii ''OPS'') = ascii ''OPS''"
  "normalize_space_key (ascii ''~jdoe'') = ascii ''~jdoe''"
  by (simp_all add: normalize_space_key_prefix drive_prefix_def ascii_def)

text \<open>
  C3. The normalizer is idempotent: for every string \<open>s\<close>, normalizing the
  normalized string gives the normalized string again. A replaced key starts with
  the tilde, which is not a drive letter, and any other key is returned as it is.
\<close>

theorem normalize_space_key_idempotent:
  "normalize_space_key (normalize_space_key s) = normalize_space_key s"
  by (simp add: normalize_space_key_prefix not_drive_prefix_tilde)

text \<open>
  C8. The normalizer maps \<^verbatim>\<open>C:\Users\jdoe\<close> and \<^verbatim>\<open>c:\users\jdoe\<close> to
  \<^verbatim>\<open>~jdoe\<close> and leaves \<^verbatim>\<open>PROJ\<close> as it is. In general a key that does not start
  with the drive prefix (in any letter case) is returned unchanged, and one that
  does has its first nine characters replaced by one tilde, the rest being kept as
  it is, whatever it contains. The pattern matches at position 0 exactly when the
  key starts with the drive prefix, and at no later position.
\<close>

theorem normalize_space_key_drive_prefix:
  "normalize_space_key (ascii ''C:'' @ [backslash] @ ascii ''Users'' @ [backslash] @ ascii ''jdoe'')
     = ascii ''~jdoe''
   \<and> normalize_space_key (ascii ''c:'' @ [backslash] @ ascii ''users'' @ [backslash] @ ascii ''jdoe'')
     = ascii ''~jdoe''
   \<and> normalize_space_key (ascii ''PROJ'') = ascii ''PROJ''
   \<and> (\<not> drive_prefix s \<longrightarrow> normalize_space_key s = s)
   \<and> (drive_prefix s \<longrightarrow> normalize_space_key s = tilde # drop 9 s)
   \<and> (match_here drive_pattern 0 s = None) = (\<not> drive_prefix s)
   \<and> match_here drive_pattern (Suc n) s = None"
proof -
  have "drive_prefix (ascii ''C:'' @ [backslash] @ ascii ''Users'' @ [backslash] @ ascii ''jdoe'')"
    by (simp add: drive_prefix_def ascii_def backslash_def upper_range_ignorecase_def)
  moreover have "drive_prefix (ascii ''c:'' @ [backslash] @ ascii ''users'' @ [backslash] @ ascii ''jdoe'')"
    by (simp add: drive_prefix_def ascii_def backslash_def upper_range_ignorecase_def)
  moreover have "\<not> drive_prefix (ascii ''PROJ'')"
    by (simp add: drive_prefix_def ascii_def)
  moreover have "match_here drive_pattern (Suc n) s = None"
    by (simp add: drive_pattern_def)
  ultimately show ?thesis
    by (simp add: normalize_space_key_prefix match_drive_pattern)
      (simp add: ascii_def backslash_def tilde_def)
qed

theorem normalize_space_key_drive_prefix_witness:
  "\<not> drive_prefix (ascii ''xC:'' @ [backslash] @ ascii ''Users'' @ [backslash] @ ascii ''j'')
   \<and> normalize_space_key (ascii ''xC:'' @ [backslash] @ ascii ''Users'' @ [backslash] @ ascii ''j'')
       = ascii ''xC:'' @ [backslash] @ ascii ''Users'' @ [backslash] @ ascii ''j''
   \<and> drive_prefix
       (ascii ''d:'' @ [backslash] @ ascii ''USERS'' @ [backslash] @ ascii ''C:'' @ [backslash]
          @ ascii ''Users'' @ [backslash])
   \<and> normalize_space_key
       (ascii ''d:'' @ [backslash] @ ascii ''USERS'' @ [backslash] @ ascii ''C:'' @ [backslash]
          @ ascii ''Users'' @ [backslash])
       = ascii ''~C:'' @ [backslash] @ ascii ''Users'' @ [backslash]"
proof -
  have a: "\<not> drive_prefix (ascii ''xC:'' @ [backslash] @ ascii ''Users'' @ [backslash] @ ascii ''j'')"
    by (simp add: drive_prefix_def ascii_def backslash_def upper_range_ignorecase_def)
  have b: "drive_prefix
      (ascii ''d:'' @ [backslash] @ ascii ''USERS'' @ [backslash] @ ascii ''C:'' @ [backslash]
         @ ascii ''Users'' @ [backslash])"
    by (simp add: drive_prefix_def ascii_def backslash_def upper_range_ignorecase_def)
  show ?thesis
    using a b
      normalize_space_key_drive_prefix
        [of "ascii ''xC:'' @ [backslash] @ ascii ''Users'' @ [backslash] @ ascii ''j''" 0]
      normalize_space_key_drive_prefix
        [of "ascii ''d:'' @ [backslash] @ ascii ''USERS'' @ [backslash] @ ascii ''C:'' @ [backslash]
               @ ascii ''Users'' @ [backslash]" 0]
    by (simp add: ascii_def backslash_def tilde_def)
qed

section \<open>Digits and \<^verbatim>\<open>int()\<close>\<close>

lemma in_ranges_iff: "in_ranges rs c \<longleftrightarrow> (\<exists>(lo, hi) \<in> set rs. lo \<le> c \<and> c \<le> hi)"
  by (induction rs) auto

lemma ranges_disjoint:
  "list_all (\<lambda>(lo, hi). list_all (\<lambda>(a, b). hi < a \<or> b < lo) rs') rs \<Longrightarrow>
     in_ranges rs c \<Longrightarrow> \<not> in_ranges rs' c"
  by (fastforce simp: in_ranges_iff list_all_iff)

lemma decimal_ranges_not_space:
  "list_all (\<lambda>(lo, hi). list_all (\<lambda>(a, b). hi < a \<or> b < lo) whitespace_ranges) decimal_ranges"
  by (simp add: decimal_ranges_def whitespace_ranges_def)

lemma other_digit_ranges_not_space:
  "list_all (\<lambda>(lo, hi). list_all (\<lambda>(a, b). hi < a \<or> b < lo) whitespace_ranges) other_digit_ranges"
  by (simp add: other_digit_ranges_def whitespace_ranges_def)

lemma isdigit_not_space: "isdigit_char c \<Longrightarrow> \<not> isspace_char c"
  using ranges_disjoint [OF decimal_ranges_not_space] ranges_disjoint [OF other_digit_ranges_not_space]
  by (auto simp: isdigit_char_def isspace_char_def)

lemma isspace_not_digit: "isspace_char c \<Longrightarrow> \<not> isdigit_char c"
  using isdigit_not_space by blast

lemma not_isdigit_char_punct:
  "\<not> isdigit_char 0x5F" "\<not> isdigit_char 0x2B" "\<not> isdigit_char 0x2D"
  by (simp_all add: isdigit_char_def decimal_ranges_def other_digit_ranges_def)

lemma isdecimal_isdigit: "isdecimal_char c \<Longrightarrow> isdigit_char c"
  by (simp add: isdecimal_char_def isdigit_char_def)

lemma decimal_in_None: "(decimal_in rs c = None) = (\<not> in_ranges rs c)"
  by (induction rs) (auto split: if_splits)

lemma to_decimal_None: "(to_decimal c = None) = (\<not> isdecimal_char c)"
  by (simp add: to_decimal_def isdecimal_char_def decimal_in_None)

lemma to_decimal_digit_of: "isdecimal_char c \<Longrightarrow> to_decimal c = Some (digit_of c)"
  using to_decimal_None [of c] by (auto simp: digit_of_def)

lemma ascii_digit_decimal: "ascii_digit c \<Longrightarrow> isdecimal_char c"
  by (simp add: ascii_digit_def isdecimal_char_def decimal_ranges_def)

lemma ascii_digit_of: "ascii_digit c \<Longrightarrow> int (digit_of c) = int c - 0x30"
proof -
  assume "ascii_digit c"
  then have "0x30 \<le> c" "c \<le> 0x39"
    by (simp_all add: ascii_digit_def)
  then have "digit_of c = c - 0x30"
    by (simp add: digit_of_def to_decimal_def decimal_ranges_def)
  with \<open>0x30 \<le> c\<close> show ?thesis
    by simp
qed

lemma dropWhile_id: "xs = [] \<or> \<not> P (hd xs) \<Longrightarrow> dropWhile P xs = xs"
  by (cases xs) auto

lemma strip_digits: "list_all isdigit_char s \<Longrightarrow> strip s = s"
proof (cases "s = []")
  case True
  then show ?thesis by (simp add: strip_def)
next
  case False
  assume d: "list_all isdigit_char s"
  from False d have "\<not> int_space_char (hd s)" "\<not> int_space_char (last s)"
    by (auto simp: list_all_iff isdigit_not_space int_space_char_def)
  with False show ?thesis
    by (simp add: strip_def dropWhile_id hd_rev)
qed

lemma scan_digits_decimal:
  "list_all isdecimal_char s \<Longrightarrow>
     scan_digits prev n v s =
       (if s = [] \<and> \<not> prev then None
        else Some (n + length s, foldl (\<lambda>v c. 10 * v + int (digit_of c)) v s))"
proof (induction s arbitrary: prev n v)
  case Nil
  then show ?case by simp
next
  case (Cons c cs)
  then have c: "isdecimal_char c" and cs: "list_all isdecimal_char cs" by simp_all
  from c have "c \<noteq> 0x5F"
    using isdecimal_isdigit not_isdigit_char_punct(1) by blast
  then show ?case
    using Cons.IH [OF cs] to_decimal_digit_of [OF c] by simp
qed

lemma scan_digits_other:
  "list_all isdigit_char s \<Longrightarrow> \<not> list_all isdecimal_char s \<Longrightarrow> scan_digits prev n v s = None"
proof (induction s arbitrary: prev n v)
  case Nil
  then show ?case by simp
next
  case (Cons c cs)
  then have "c \<noteq> 0x5F"
    using not_isdigit_char_punct(1) by auto
  show ?case
  proof (cases "isdecimal_char c")
    case True
    with Cons have "scan_digits True (Suc n) (10 * v + int (digit_of c)) cs = None"
      by simp
    with True \<open>c \<noteq> 0x5F\<close> show ?thesis
      by (simp add: to_decimal_digit_of)
  next
    case False
    then have "to_decimal c = None"
      by (simp add: to_decimal_None)
    with \<open>c \<noteq> 0x5F\<close> show ?thesis
      by simp
  qed
qed

text \<open>
  \<^verbatim>\<open>int\<close> on a string that \<^verbatim>\<open>isdigit\<close> accepts: there is nothing to strip and no
  sign, so the string converts when all its digits are decimal digits and the
  length limit lets it through, and raises \<^verbatim>\<open>ValueError\<close> otherwise.
\<close>

lemma py_int_isdigit:
  assumes "isdigit s"
  shows "py_int max_str_digits s =
     (if list_all isdecimal_char s \<and> \<not> digits_refused max_str_digits (length s)
      then Inr (decimal_number s) else Inl ValueError)"
proof -
  from assms have ne: "s \<noteq> []" and d: "list_all isdigit_char s"
    by (simp_all add: isdigit_def)
  from ne d have "isdigit_char (hd s)"
    by (cases s) simp_all
  then have sign: "hd s \<noteq> 0x2B" "hd s \<noteq> 0x2D"
    using not_isdigit_char_punct by auto
  show ?thesis
  proof (cases "list_all isdecimal_char s")
    case True
    with ne sign show ?thesis
      by (simp add: py_int_def strip_digits [OF d] scan_digits_decimal decimal_number_def)
  next
    case False
    with ne sign show ?thesis
      by (simp add: py_int_def strip_digits [OF d] scan_digits_other [OF d])
  qed
qed

lemma decimal_number_ascii: "list_all ascii_digit s \<Longrightarrow> decimal_number s = parseInt s"
proof -
  have "list_all ascii_digit s \<Longrightarrow>
      foldl (\<lambda>v c. 10 * v + int (digit_of c)) v s = foldl (\<lambda>v c. 10 * v + (int c - 0x30)) v s" for v
    by (induction s arbitrary: v) (simp_all add: ascii_digit_of)
  then show "list_all ascii_digit s \<Longrightarrow> decimal_number s = parseInt s"
    by (simp add: decimal_number_def parseInt_def)
qed

lemma isdigit_ascii: "s \<noteq> [] \<Longrightarrow> list_all ascii_digit s \<Longrightarrow> isdigit s"
  by (auto simp: isdigit_def list_all_iff ascii_digit_decimal isdecimal_isdigit)

lemma py_int_ascii:
  assumes "s \<noteq> []" "list_all ascii_digit s" "\<not> digits_refused max_str_digits (length s)"
  shows "py_int max_str_digits s = Inr (parseInt s)"
proof -
  from assms have "list_all isdecimal_char s"
    by (auto simp: list_all_iff ascii_digit_decimal)
  with assms show ?thesis
    by (simp add: py_int_isdigit isdigit_ascii decimal_number_ascii)
qed

section \<open>Identifier resolution\<close>

lemma construct_page_resolve:
  "construct_page env max_str_digits page w =
     (case resolve max_str_digits page of
        Inl e \<Rightarrow> (Inl e, [], w)
      | Inr ident \<Rightarrow> constructPage env ident w)"
  by (simp add: construct_page_def resolve_def constructPage_def split: sum.splits)

lemma resolve_decimal:
  assumes "s \<noteq> []" "list_all isdecimal_char s" "\<not> digits_refused max_str_digits (length s)"
  shows "resolve max_str_digits s = Inr (NumericId (decimal_number s))"
proof -
  from assms have "isdigit s"
    by (auto simp: isdigit_def list_all_iff isdecimal_isdigit)
  with assms show ?thesis
    by (simp add: resolve_def py_int_isdigit)
qed

lemma resolve_not_isdigit: "\<not> isdigit s \<Longrightarrow> resolve max_str_digits s = Inr (Url s)"
  by (simp add: resolve_def)

lemma construct_page_decimal:
  assumes "s \<noteq> []" "list_all isdecimal_char s" "\<not> digits_refused max_str_digits (length s)"
  shows "construct_page env max_str_digits s w
      = call (PageFromId (decimal_number s)) (Page_from_id env (decimal_number s)) w"
  using assms by (simp add: construct_page_resolve resolve_decimal constructPage_def)

lemma construct_page_url:
  "\<not> isdigit s \<Longrightarrow>
     construct_page env max_str_digits s w = call (PageFromUrl s) (Page_from_url env s) w"
  by (simp add: construct_page_def)

lemma ascii_digits_decimal: "list_all ascii_digit s \<Longrightarrow> list_all isdecimal_char s"
  by (auto simp: list_all_iff ascii_digit_decimal)

lemma construct_page_ascii:
  assumes "s \<noteq> []" "list_all ascii_digit s" "\<not> digits_refused max_str_digits (length s)"
  shows "construct_page env max_str_digits s w
      = call (PageFromId (parseInt s)) (Page_from_id env (parseInt s)) w"
  using assms construct_page_decimal [of s max_str_digits env w]
  by (simp add: ascii_digits_decimal decimal_number_ascii)

text \<open>
  C1, as amended. A token that is not empty, consists of ASCII digits only and is
  not longer than the conversion limit lets through resolves to \<open>NumericId\<close> of the
  number it denotes, and \<^verbatim>\<open>Page.from_id\<close> is called with that number. The same
  holds for a token of decimal digits of any script, with the number its digits
  denote. A token that is empty or contains a character that is not a digit for
  \<^verbatim>\<open>str.isdigit\<close> resolves to \<open>Url\<close> of the token, and \<^verbatim>\<open>Page.from_url\<close> is called
  with the token as it is. (Tokens of digits some of which are not decimal digits
  are left out here.)
\<close>

theorem resolve_classifies:
  "(s \<noteq> [] \<and> list_all ascii_digit s \<and> \<not> digits_refused max_str_digits (length s) \<longrightarrow>
      resolve max_str_digits s = Inr (NumericId (parseInt s))
      \<and> construct_page env max_str_digits s w
          = call (PageFromId (parseInt s)) (Page_from_id env (parseInt s)) w)
   \<and> (s \<noteq> [] \<and> list_all isdecimal_char s \<and> \<not> digits_refused max_str_digits (length s) \<longrightarrow>
      resolve max_str_digits s = Inr (NumericId (decimal_number s))
      \<and> construct_page env max_str_digits s w
          = call (PageFromId (decimal_number s)) (Page_from_id env (decimal_number s)) w)
   \<and> (s = [] \<or> \<not> list_all isdigit_char s \<longrightarrow>
      resolve max_str_digits s = Inr (Url s)
      \<and> construct_page env max_str_digits s w = call (PageFromUrl s) (Page_from_url env s) w)"
proof (intro conjI impI)
  assume a: "s \<noteq> [] \<and> list_all ascii_digit s \<and> \<not> digits_refused max_str_digits (length s)"
  then have "list_all isdecimal_char s"
    by (auto simp: list_all_iff ascii_digit_decimal)
  with a show r: "resolve max_str_digits s = Inr (NumericId (parseInt s))"
    using resolve_decimal [of s max_str_digits] by (simp add: decimal_number_ascii)
  show "construct_page env max_str_digits s w
      = call (PageFromId (parseInt s)) (Page_from_id env (parseInt s)) w"
    by (simp add: construct_page_resolve r constructPage_def)
next
  assume a: "s \<noteq> [] \<and> list_all isdecimal_char s \<and> \<not> digits_refused max_str_digits (length s)"
  then show r: "resolve max_str_digits s = Inr (NumericId (decimal_number s))"
    by (simp add: resolve_decimal)
  show "construct_page env max_str_digits s w
      = call (PageFromId (decimal_number s)) (Page_from_id env (decimal_number s)) w"
    by (simp add: construct_page_resolve r constructPage_def)
next
  assume "s = [] \<or> \<not> list_all isdigit_char s"
  then have "\<not> isdigit s"
    by (auto simp: isdigit_def)
  then show r: "resolve max_str_digits s = Inr (Url s)"
    by (rule resolve_not_isdigit)
  show "construct_page env max_str_digits s w = call (PageFromUrl s) (Page_from_url env s) w"
    by (simp add: construct_page_resolve r constructPage_def)
qed

lemma stub_simps:
  "set_setting (stub f) k v = stub_call f ()"
  "Page_from_id (stub f) n = stub_call f (PageOfId n)"
  "Page_from_url (stub f) u = stub_call f (PageOfUrl u)"
  "Page_export (stub f) p = stub_call f ()"
  "Page_export_with_descendants (stub f) p = stub_call f ()"
  "Space_from_key (stub f) k = stub_call f k"
  "Space_export (stub f) sp = stub_call f ()"
  "Organization_from_api (stub f) = stub_call f ()"
  "Organization_export (stub f) org = stub_call f ()"
  by (simp_all add: stub_def)

theorem resolve_classifies_witness:
  "resolve default_max_str_digits (ascii ''123'') = Inr (NumericId 123)
   \<and> construct_page (stub None) default_max_str_digits (ascii ''123'') 0
       = (Inr (PageOfId 123), [PageFromId 123 (Inr (PageOfId 123))], 1)
   \<and> resolve default_max_str_digits [0x663, 0x661] = Inr (NumericId 31)
   \<and> resolve default_max_str_digits (ascii ''https://wiki.example.com/pages/789'')
       = Inr (Url (ascii ''https://wiki.example.com/pages/789''))
   \<and> construct_page (stub None) default_max_str_digits (ascii ''12a'') 0
       = (Inr (PageOfUrl (ascii ''12a'')), [PageFromUrl (ascii ''12a'') (Inr (PageOfUrl (ascii ''12a'')))], 1)"
proof -
  have 1: "ascii ''123'' \<noteq> [] \<and> list_all ascii_digit (ascii ''123'')
      \<and> \<not> digits_refused default_max_str_digits (length (ascii ''123''))"
    by (simp add: ascii_def ascii_digit_def digits_refused_def)
  have 2: "[0x663, 0x661] \<noteq> [] \<and> list_all isdecimal_char [0x663, 0x661]
      \<and> \<not> digits_refused default_max_str_digits (length [0x663 :: nat, 0x661])"
    by (simp add: isdecimal_char_def decimal_ranges_def digits_refused_def)
  have 3: "ascii ''https://wiki.example.com/pages/789'' = []
      \<or> \<not> list_all isdigit_char (ascii ''https://wiki.example.com/pages/789'')"
    by (simp add: ascii_def isdigit_char_def decimal_ranges_def other_digit_ranges_def)
  have 4: "ascii ''12a'' = [] \<or> \<not> list_all isdigit_char (ascii ''12a'')"
    by (simp add: ascii_def isdigit_char_def decimal_ranges_def other_digit_ranges_def)
  have p: "parseInt (ascii ''123'') = 123"
    by (simp add: parseInt_def ascii_def)
  have d: "decimal_number [0x663, 0x661] = 31"
    by (simp add: decimal_number_def digit_of_def to_decimal_def decimal_ranges_def)
  show ?thesis
    using 1 2 3 4
      resolve_classifies [of "ascii ''123''" default_max_str_digits "stub None" 0]
      resolve_classifies [of "[0x663, 0x661]" default_max_str_digits "stub None" 0]
      resolve_classifies [of "ascii ''https://wiki.example.com/pages/789''" default_max_str_digits "stub None" 0]
      resolve_classifies [of "ascii ''12a''" default_max_str_digits "stub None" 0]
    by (simp add: p d call_def stub_simps stub_call_def)
qed

text \<open>
  The claim C1 as it was stated fails: the token of the one character U+0663
  (Arabic-Indic digit three) contains a character that is not an ASCII digit and
  resolves to \<open>NumericId 3\<close>, not to \<open>Url\<close>; the empty token has no character that
  is not an ASCII digit and resolves to \<open>Url\<close>; and under the default limit of 4300
  digits the token of 4301 digits \<^verbatim>\<open>1\<close> resolves to neither, \<^verbatim>\<open>int\<close> raising
  \<^verbatim>\<open>ValueError\<close>.
\<close>

theorem resolve_counterexample:
  "resolve default_max_str_digits [0x663] = Inr (NumericId 3)
   \<and> \<not> ascii_digit 0x663
   \<and> resolve default_max_str_digits [] = Inr (Url [])
   \<and> list_all ascii_digit (replicate 4301 0x31)
   \<and> resolve default_max_str_digits (replicate 4301 0x31) = Inl ValueError"
proof -
  have a: "isdigit [0x663]" "list_all isdecimal_char [0x663]"
    by (simp_all add: isdigit_def isdigit_char_def isdecimal_char_def decimal_ranges_def)
  have "decimal_number [0x663] = 3"
    by (simp add: decimal_number_def digit_of_def to_decimal_def decimal_ranges_def)
  with a have 1: "resolve default_max_str_digits [0x663] = Inr (NumericId 3)"
    by (simp add: resolve_def py_int_isdigit digits_refused_def)
  have 2: "resolve default_max_str_digits [] = Inr (Url [])"
    by (simp add: resolve_def isdigit_def)
  have b: "list_all ascii_digit (replicate 4301 0x31)"
    by (simp add: list_all_iff ascii_digit_def)
  then have "isdigit (replicate 4301 0x31)"
    by (intro isdigit_ascii) simp_all
  then have 3: "resolve default_max_str_digits (replicate 4301 0x31) = Inl ValueError"
    by (simp add: resolve_def py_int_isdigit digits_refused_def default_max_str_digits_def)
  from 1 2 3 b show ?thesis
    by (simp add: ascii_digit_def)
qed

section \<open>Sequencing and loops\<close>

lemma then_do_Inl: "then_do (Inl e, evs, w) k = (Inl e, evs, w)"
  by (simp add: then_do_def)

lemma then_do_Inr: "then_do (Inr a, evs, w) k = (case k a w of (r, evs', w') \<Rightarrow> (r, evs @ evs', w'))"
  by (simp add: then_do_def)

lemma measure_ctx_run:
  "measure_ctx label (r, evs, w) = (r, MeasureEnter label # evs @ [MeasureExit label], w)"
  by (simp add: measure_ctx_def)




lemma setting_writes_append:
  "setting_writes (evs @ evs') = setting_writes evs @ setting_writes evs'"
  by (simp add: setting_writes_def)

lemma for_each_no_setting_writes:
  assumes "\<And>x w. setting_writes (events (body x w)) = []"
  shows "setting_writes (events (for_each body xs w)) = []"
proof (induction xs arbitrary: w)
  case Nil
  then show ?case by (simp add: events_def setting_writes_def)
next
  case (Cons x xs)
  obtain r evs1 w1 where b: "body x w = (r, evs1, w1)"
    by (cases "body x w") auto
  with assms [of x w] have 1: "setting_writes evs1 = []"
    by (simp add: events_def)
  show ?case
  proof (cases r)
    case (Inl e)
    with b 1 show ?thesis by (simp add: events_def)
  next
    case (Inr u)
    obtain r' evs2 w2 where l: "for_each body xs w1 = (r', evs2, w2)"
      by (cases "for_each body xs w1") auto
    with Cons [of w1] have "setting_writes evs2 = []"
      by (simp add: events_def)
    with b 1 Inr l show ?thesis
      by (simp add: events_def setting_writes_append)
  qed
qed

section \<open>One element of a batch\<close>



lemma pages_step_no_writes: "setting_writes (events (pages_step env max_str_digits x w)) = []"
  by (auto simp: pages_step_def construct_page_def then_do_def call_def setting_writes_def
      events_def split: prod.splits sum.splits if_splits)



lemma pages_with_descendants_step_no_writes:
  "setting_writes (events (pages_with_descendants_step env max_str_digits x w)) = []"
  by (auto simp: pages_with_descendants_step_def construct_page_def then_do_def call_def
      setting_writes_def events_def split: prod.splits sum.splits if_splits)

lemma spaces_step_ok:
  "spaces_step env k w = (Inr u, evs, w') \<Longrightarrow>
     \<exists>s. evs = [SpaceFromKey k (Inr s), SpaceExport s (Inr ())]"
  by (auto simp: spaces_step_def then_do_def call_def split: prod.splits sum.splits)


lemma spaces_step_no_writes: "setting_writes (events (spaces_step env k w)) = []"
  by (auto simp: spaces_step_def then_do_def call_def setting_writes_def events_def
      split: prod.splits sum.splits)


lemma all_spaces_step_no_writes: "setting_writes (events (all_spaces_step env w)) = []"
  by (auto simp: all_spaces_step_def then_do_def call_def setting_writes_def events_def
      split: prod.splits sum.splits)

section \<open>Exceptions end the batch\<close>






lemmas run_simps =
  override_output_path_config_def pages_step_def pages_with_descendants_step_def spaces_step_def
  all_spaces_step_def then_do_def call_def stub_simps stub_call_def




section \<open>The pages command on two identifiers\<close>

lemma construct_page_123_456:
  "construct_page env max_str_digits (ascii ''123'') w = call (PageFromId 123) (Page_from_id env 123) w"
  "construct_page env max_str_digits (ascii ''456'') w = call (PageFromId 456) (Page_from_id env 456) w"
  using construct_page_ascii [of "ascii ''123''" max_str_digits env w]
    construct_page_ascii [of "ascii ''456''" max_str_digits env w]
  by (simp_all add: ascii_def ascii_digit_def digits_refused_def parseInt_def)

text \<open>
  C2. The command \<^verbatim>\<open>pages\<close> with an output path and the tokens \<^verbatim>\<open>123\<close> and
  \<^verbatim>\<open>456\<close>, when every call returns: the log is the scope, one write of the output
  path, then \<^verbatim>\<open>Page.from_id(123)\<close>, the export of the page it returned,
  \<^verbatim>\<open>Page.from_id(456)\<close>, the export of the page it returned, and the end of the
  scope. So the path is written once and before any export, the constructions are
  in the order of the tokens, and each page is exported once, right after its
  construction.
\<close>

theorem pages_123_456:
  assumes "set_setting env output_path_key out w0 = (Inr (), w1)"
    and "Page_from_id env 123 w1 = (Inr p1, w2)"
    and "Page_export env p1 w2 = (Inr (), w3)"
    and "Page_from_id env 456 w3 = (Inr p2, w4)"
    and "Page_export env p2 w4 = (Inr (), w5)"
  shows "pages env max_str_digits [ascii ''123'', ascii ''456''] (Some out) w0
    = (Inr (),
       [MeasureEnter (ascii ''Export pages 123, 456''),
        SetSetting output_path_key out (Inr ()),
        PageFromId 123 (Inr p1), PageExport p1 (Inr ()),
        PageFromId 456 (Inr p2), PageExport p2 (Inr ()),
        MeasureExit (ascii ''Export pages 123, 456'')],
       w5)"
proof -
  have j: "ascii ''Export pages '' @ join (ascii '', '') [ascii ''123'', ascii ''456'']
      = ascii ''Export pages 123, 456''"
    by (simp add: ascii_def)
  have o: "override_output_path_config env (Some out) w0
      = (Inr (), [SetSetting output_path_key out (Inr ())], w1)"
    using assms(1) by (simp add: override_output_path_config_def call_def)
  have s1: "pages_step env max_str_digits (ascii ''123'') w1
      = (Inr (), [PageFromId 123 (Inr p1), PageExport p1 (Inr ())], w3)"
    using assms(2,3) by (simp add: pages_step_def construct_page_123_456 call_def then_do_def)
  have s2: "pages_step env max_str_digits (ascii ''456'') w3
      = (Inr (), [PageFromId 456 (Inr p2), PageExport p2 (Inr ())], w5)"
    using assms(4,5) by (simp add: pages_step_def construct_page_123_456 call_def then_do_def)
  show ?thesis
    unfolding pages_def j by (simp add: o s1 s2 then_do_Inr measure_ctx_run)
qed

theorem pages_123_456_witness:
  "pages (stub None) default_max_str_digits [ascii ''123'', ascii ''456'']
       (Some (ascii ''/tmp/out'')) 0
     = (Inr (),
        [MeasureEnter (ascii ''Export pages 123, 456''),
         SetSetting output_path_key (ascii ''/tmp/out'') (Inr ()),
         PageFromId 123 (Inr (PageOfId 123)), PageExport (PageOfId 123) (Inr ()),
         PageFromId 456 (Inr (PageOfId 456)), PageExport (PageOfId 456) (Inr ()),
         MeasureExit (ascii ''Export pages 123, 456'')],
        5)"
  by (rule pages_123_456 [of "stub None" _ 0 1 _ 2 3 _ 4]) (simp_all add: stub_simps stub_call_def)

section \<open>The spaces command\<close>

lemma override_ok:
  "override_output_path_config env out w = (Inr (), evs, w') \<Longrightarrow>
     evs = (case out of None \<Rightarrow> [] | Some v \<Rightarrow> [SetSetting output_path_key v (Inr ())])"
  by (auto simp: override_output_path_config_def call_def split: option.splits prod.splits)

lemma spaces_loop_shape:
  "for_each (spaces_step env) (map f ks) w = (Inr (), evs, w') \<Longrightarrow>
     \<exists>ss. length ss = length ks
       \<and> evs = concat (map2 (\<lambda>k s. [SpaceFromKey (f k) (Inr s), SpaceExport s (Inr ())]) ks ss)"
proof (induction ks arbitrary: w evs)
  case Nil
  then show ?case by simp
next
  case (Cons k ks)
  then obtain evs1 w1 evs2 where
    b: "spaces_step env (f k) w = (Inr (), evs1, w1)"
    and r: "for_each (spaces_step env) (map f ks) w1 = (Inr (), evs2, w')"
    and e: "evs = evs1 @ evs2"
    by (auto split: prod.splits sum.splits)
  from spaces_step_ok [OF b] obtain s where
    1: "evs1 = [SpaceFromKey (f k) (Inr s), SpaceExport s (Inr ())]"
    by blast
  from Cons.IH [OF r] obtain ss where
    2: "length ss = length ks"
      "evs2 = concat (map2 (\<lambda>k s. [SpaceFromKey (f k) (Inr s), SpaceExport s (Inr ())]) ks ss)"
    by blast
  from 1 2 e have "length (s # ss) = length (k # ks)
      \<and> evs = concat (map2 (\<lambda>k s. [SpaceFromKey (f k) (Inr s), SpaceExport s (Inr ())])
          (k # ks) (s # ss))"
    by simp
  then show ?case by blast
qed

lemma spaces_loop_returns:
  assumes "\<forall>k w. \<exists>s. fst (Space_from_key env k w) = Inr s"
    and "\<forall>s w. fst (Space_export env s w) = Inr ()"
  shows "outcome (for_each (spaces_step env) ks w) = Inr ()"
proof (induction ks arbitrary: w)
  case Nil
  then show ?case by (simp add: outcome_def)
next
  case (Cons k ks)
  from assms(1) obtain s w1 where 1: "Space_from_key env k w = (Inr s, w1)"
    by (metis fst_conv surj_pair)
  from assms(2) obtain w2 where 2: "Space_export env s w1 = (Inr (), w2)"
    by (metis fst_conv surj_pair)
  from 1 2 have "spaces_step env k w
      = (Inr (), [SpaceFromKey k (Inr s), SpaceExport s (Inr ())], w2)"
    by (simp add: spaces_step_def then_do_def call_def)
  then have step: "spaces_step env k w
      = (Inr (), [SpaceFromKey k (Inr s), SpaceExport s (Inr ())], w2)" .
  obtain r evs w3 where l: "for_each (spaces_step env) ks w2 = (r, evs, w3)"
    by (cases "for_each (spaces_step env) ks w2") auto
  with Cons [of w2] have "r = Inr ()"
    by (simp add: outcome_def)
  with step l show ?case
    by (simp add: outcome_def)
qed

lemma override_returns:
  assumes "\<forall>k v w. fst (set_setting env k v w) = Inr ()"
  shows "\<exists>evs0 w0. override_output_path_config env out w = (Inr (), evs0, w0)"
proof (cases out)
  case None
  then show ?thesis by (simp add: override_output_path_config_def)
next
  case (Some v)
  obtain r w1 where 1: "set_setting env output_path_key v w = (r, w1)"
    by (cases "set_setting env output_path_key v w") auto
  with assms have "r = Inr ()"
    by (metis fst_conv)
  with 1 Some show ?thesis
    by (simp add: override_output_path_config_def call_def)
qed

text \<open>
  C6. The command \<^verbatim>\<open>spaces\<close> on any list of keys. The label of the scope, which
  is logged before any call, is made of all the normalized keys. When the command
  returns, its log is the scope, the write of the output path if one was given, and
  then for each key in the order given the call of \<^verbatim>\<open>Space.from_key\<close> with the
  normalized key followed at once by the export of the space that call returned,
  once for each key. And the command does return when no collaborator raises.
\<close>

theorem spaces_normalizes_then_exports:
  "(spaces env keys out w = (Inr (), evs, w') \<longrightarrow>
      (\<exists>ss. length ss = length keys
         \<and> evs =
             MeasureEnter (ascii ''Export spaces ''
                 @ join (ascii '', '') (map normalize_space_key keys))
             # (case out of None \<Rightarrow> [] | Some v \<Rightarrow> [SetSetting output_path_key v (Inr ())])
             @ concat (map2 (\<lambda>k s. [SpaceFromKey (normalize_space_key k) (Inr s),
                                      SpaceExport s (Inr ())]) keys ss)
             @ [MeasureExit (ascii ''Export spaces ''
                 @ join (ascii '', '') (map normalize_space_key keys))]))
   \<and> ((\<forall>k v w. fst (set_setting env k v w) = Inr ())
       \<and> (\<forall>k w. \<exists>s. fst (Space_from_key env k w) = Inr s)
       \<and> (\<forall>s w. fst (Space_export env s w) = Inr ())
      \<longrightarrow> outcome (spaces env keys out w) = Inr ())"
proof (intro conjI impI)
  let ?label = "ascii ''Export spaces '' @ join (ascii '', '') (map normalize_space_key keys)"
  assume a: "spaces env keys out w = (Inr (), evs, w')"
  obtain r0 evs0 w0 where o: "override_output_path_config env out w = (r0, evs0, w0)"
    by (cases "override_output_path_config env out w") auto
  obtain r1 evs1 w1 where l: "for_each (spaces_step env) (map normalize_space_key keys) w0 = (r1, evs1, w1)"
    by (cases "for_each (spaces_step env) (map normalize_space_key keys) w0") auto
  from a o l have r0: "r0 = Inr ()" and r1: "r1 = Inr ()"
    and e: "evs = MeasureEnter ?label # evs0 @ evs1 @ [MeasureExit ?label]"
    by (cases r0; simp add: spaces_def Let_def then_do_def measure_ctx_def)+
  from o r0 have 0: "evs0 = (case out of None \<Rightarrow> [] | Some v \<Rightarrow> [SetSetting output_path_key v (Inr ())])"
    by (simp add: override_ok)
  from spaces_loop_shape [of env normalize_space_key keys w0 evs1 w1] l r1
  obtain ss where s: "length ss = length keys"
    "evs1 = concat (map2 (\<lambda>k s. [SpaceFromKey (normalize_space_key k) (Inr s),
        SpaceExport s (Inr ())]) keys ss)"
    by auto
  from s(2) s(1) e 0 show "\<exists>ss. length ss = length keys
         \<and> evs =
             MeasureEnter ?label
             # (case out of None \<Rightarrow> [] | Some v \<Rightarrow> [SetSetting output_path_key v (Inr ())])
             @ concat (map2 (\<lambda>k s. [SpaceFromKey (normalize_space_key k) (Inr s),
                                      SpaceExport s (Inr ())]) keys ss)
             @ [MeasureExit ?label]"
    by (intro exI [of _ ss]) simp
next
  assume a: "(\<forall>k v w. fst (set_setting env k v w) = Inr ())
       \<and> (\<forall>k w. \<exists>s. fst (Space_from_key env k w) = Inr s)
       \<and> (\<forall>s w. fst (Space_export env s w) = Inr ())"
  then obtain evs0 w0 where o: "override_output_path_config env out w = (Inr (), evs0, w0)"
    using override_returns [of env out w] by blast
  from a have "outcome (for_each (spaces_step env) (map normalize_space_key keys) w0) = Inr ()"
    by (intro spaces_loop_returns) simp_all
  then obtain evs1 w1 where
    "for_each (spaces_step env) (map normalize_space_key keys) w0 = (Inr (), evs1, w1)"
    by (cases "for_each (spaces_step env) (map normalize_space_key keys) w0")
      (auto simp: outcome_def)
  with o show "outcome (spaces env keys out w) = Inr ()"
    by (simp add: spaces_def Let_def then_do_def measure_ctx_def outcome_def)
qed

theorem spaces_normalizes_then_exports_witness:
  "spaces (stub None)
       [ascii ''C:'' @ [backslash] @ ascii ''Users'' @ [backslash] @ ascii ''jdoe'', ascii ''DEV'']
       (Some (ascii ''/tmp/out'')) 0
     = (Inr (),
        [MeasureEnter (ascii ''Export spaces ~jdoe, DEV''),
         SetSetting output_path_key (ascii ''/tmp/out'') (Inr ()),
         SpaceFromKey (ascii ''~jdoe'') (Inr (ascii ''~jdoe'')),
         SpaceExport (ascii ''~jdoe'') (Inr ()),
         SpaceFromKey (ascii ''DEV'') (Inr (ascii ''DEV'')),
         SpaceExport (ascii ''DEV'') (Inr ()),
         MeasureExit (ascii ''Export spaces ~jdoe, DEV'')],
        5)
   \<and> (\<exists>ss. length ss
          = length [ascii ''C:'' @ [backslash] @ ascii ''Users'' @ [backslash] @ ascii ''jdoe'',
              ascii ''DEV'']
        \<and> events (spaces (stub None)
              [ascii ''C:'' @ [backslash] @ ascii ''Users'' @ [backslash] @ ascii ''jdoe'',
               ascii ''DEV'']
              (Some (ascii ''/tmp/out'')) 0)
          = MeasureEnter (ascii ''Export spaces '' @ join (ascii '', '')
                (map normalize_space_key
                   [ascii ''C:'' @ [backslash] @ ascii ''Users'' @ [backslash] @ ascii ''jdoe'',
                    ascii ''DEV'']))
            # (case Some (ascii ''/tmp/out'') of
                 None \<Rightarrow> []
               | Some v \<Rightarrow> [SetSetting output_path_key v (Inr ())])
            @ concat (map2 (\<lambda>k s. [SpaceFromKey (normalize_space_key k) (Inr s),
                                     SpaceExport s (Inr ())])
                [ascii ''C:'' @ [backslash] @ ascii ''Users'' @ [backslash] @ ascii ''jdoe'',
                 ascii ''DEV''] ss)
            @ [MeasureExit (ascii ''Export spaces '' @ join (ascii '', '')
                (map normalize_space_key
                   [ascii ''C:'' @ [backslash] @ ascii ''Users'' @ [backslash] @ ascii ''jdoe'',
                    ascii ''DEV'']))])
   \<and> outcome (spaces (stub None)
       [ascii ''C:'' @ [backslash] @ ascii ''Users'' @ [backslash] @ ascii ''jdoe'', ascii ''DEV'']
       (Some (ascii ''/tmp/out'')) 0) = Inr ()"
proof -
  let ?keys = "[ascii ''C:'' @ [backslash] @ ascii ''Users'' @ [backslash] @ ascii ''jdoe'',
    ascii ''DEV'']"
  let ?log = "[MeasureEnter (ascii ''Export spaces ~jdoe, DEV''),
    SetSetting output_path_key (ascii ''/tmp/out'') (Inr ()),
    SpaceFromKey (ascii ''~jdoe'') (Inr (ascii ''~jdoe'')),
    SpaceExport (ascii ''~jdoe'') (Inr ()),
    SpaceFromKey (ascii ''DEV'') (Inr (ascii ''DEV'')),
    SpaceExport (ascii ''DEV'') (Inr ()),
    MeasureExit (ascii ''Export spaces ~jdoe, DEV'')]"
  note n = normalize_space_key_jdoe normalize_space_key_plain
  have run: "spaces (stub None) ?keys (Some (ascii ''/tmp/out'')) 0 = (Inr (), ?log, 5)"
    by (simp add: spaces_def Let_def n) (simp add: run_simps measure_ctx_run ascii_def)
  have h: "(\<forall>k v w. fst (set_setting (stub None) k v w) = Inr ())
      \<and> (\<forall>k w. \<exists>s. fst (Space_from_key (stub None) k w) = Inr s)
      \<and> (\<forall>s w. fst (Space_export (stub None) s w) = Inr ())"
    by (simp add: stub_simps stub_call_def)
  note 1 = spaces_normalizes_then_exports
    [of "stub None" ?keys "Some (ascii ''/tmp/out'')" 0 ?log 5, THEN conjunct1, THEN mp, OF run]
  note 2 = spaces_normalizes_then_exports
    [of "stub None" ?keys "Some (ascii ''/tmp/out'')" 0, THEN conjunct2, THEN mp, OF h]
  have ev: "events (spaces (stub None) ?keys (Some (ascii ''/tmp/out'')) 0) = ?log"
    by (simp only: run events_def fst_conv snd_conv)
  show ?thesis
    unfolding ev by (rule conjI [OF run conjI [OF 1 2]])
qed

section \<open>The output path\<close>

lemma setting_writes_scope:
  "setting_writes (MeasureEnter label # evs @ [MeasureExit label]) = setting_writes evs"
  by (simp add: setting_writes_def)

lemma command_without_path:
  assumes "\<And>w'. setting_writes (events (body w')) = []"
  shows "setting_writes
      (events (measure_ctx label (then_do (override_output_path_config env None w) (\<lambda>u. body))))
    = []"
proof -
  obtain r evs w1 where b: "body w = (r, evs, w1)"
    by (cases "body w") auto
  with assms [of w] have "setting_writes evs = []"
    by (simp add: events_def)
  with b show ?thesis
    by (simp add: override_output_path_config_def then_do_def measure_ctx_def events_def
        setting_writes_scope)
qed

lemma command_with_path:
  assumes "\<And>w'. setting_writes (events (body w')) = []"
  shows "\<exists>rest.
      events (measure_ctx label (then_do (override_output_path_config env (Some v) w) (\<lambda>u. body)))
        = MeasureEnter label
          # SetSetting output_path_key v (fst (set_setting env output_path_key v w)) # rest
      \<and> setting_writes rest = []"
proof -
  obtain r w0 where s: "set_setting env output_path_key v w = (r, w0)"
    by (cases "set_setting env output_path_key v w") auto
  show ?thesis
  proof (cases r)
    case (Inl e)
    with s have "events (measure_ctx label
        (then_do (override_output_path_config env (Some v) w) (\<lambda>u. body)))
      = MeasureEnter label # SetSetting output_path_key v r # [MeasureExit label]"
      by (simp add: override_output_path_config_def call_def then_do_def measure_ctx_def
          events_def)
    moreover have "setting_writes [MeasureExit label] = []"
      by (simp add: setting_writes_def)
    ultimately show ?thesis using s by auto
  next
    case (Inr u)
    obtain r1 evs w1 where b: "body w0 = (r1, evs, w1)"
      by (cases "body w0") auto
    with assms [of w0] have "setting_writes evs = []"
      by (simp add: events_def)
    then have "setting_writes (evs @ [MeasureExit label]) = []"
      by (simp add: setting_writes_def)
    moreover from s Inr b have "events (measure_ctx label
        (then_do (override_output_path_config env (Some v) w) (\<lambda>u. body)))
      = MeasureEnter label # SetSetting output_path_key v r # (evs @ [MeasureExit label])"
      by (simp add: override_output_path_config_def call_def then_do_def measure_ctx_def
          events_def)
    ultimately show ?thesis using s by auto
  qed
qed

lemma loops_no_writes:
  "setting_writes (events (for_each (pages_step env max_str_digits) xs w)) = []"
  "setting_writes (events (for_each (pages_with_descendants_step env max_str_digits) xs w)) = []"
  "setting_writes (events (for_each (spaces_step env) xs w)) = []"
  by (simp_all add: for_each_no_setting_writes pages_step_no_writes
      pages_with_descendants_step_no_writes spaces_step_no_writes)

lemma command_absent:
  "measure_ctx label (then_do (override_output_path_config env None w) (\<lambda>u. body))
     = measure_ctx label (body w)"
  by (cases "body w") (simp add: override_output_path_config_def then_do_def)

lemma command_present:
  "measure_ctx label (then_do (override_output_path_config env (Some v) w) (\<lambda>u. body))
     = measure_ctx label
         (then_do (call (SetSetting output_path_key v) (set_setting env output_path_key v) w)
            (\<lambda>u. body))"
  by (simp add: override_output_path_config_def)

text \<open>What the calls of the entities leave of the store.\<close>

lemma final_triple: "final (r, evs, w) = w"
  by (simp add: final_def)

lemma final_measure_ctx: "final (measure_ctx label m) = final m"
  by (cases m) (simp add: measure_ctx_def final_def)

lemma call_store:
  "store (snd (f w)) = store w \<Longrightarrow> store (final (call ev f w)) = store w"
  by (cases "f w") (simp add: call_def final_def)

lemma then_do_store:
  assumes "store (final m) = st" and "\<And>a w'. store (final (k a w')) = store w'"
  shows "store (final (then_do m k)) = st"
proof -
  obtain r evs w1 where m: "m = (r, evs, w1)"
    by (cases m) auto
  show ?thesis
  proof (cases r)
    case (Inl e)
    with m assms(1) show ?thesis by (simp add: then_do_def final_def)
  next
    case (Inr a)
    obtain r' evs' w2 where k: "k a w1 = (r', evs', w2)"
      by (cases "k a w1") auto
    from assms(2) [of a w1] k have "store w2 = store w1"
      by (simp add: final_def)
    with m Inr k assms(1) show ?thesis
      by (simp add: then_do_def final_def)
  qed
qed

lemma for_each_store:
  assumes "\<And>x w. store (final (body x w)) = store w"
  shows "store (final (for_each body xs w)) = store w"
proof (induction xs arbitrary: w)
  case Nil
  then show ?case by (simp add: final_def)
next
  case (Cons x xs)
  obtain r evs w1 where b: "body x w = (r, evs, w1)"
    by (cases "body x w") auto
  with assms [of x w] have 1: "store w1 = store w"
    by (simp add: final_def)
  show ?case
  proof (cases r)
    case (Inl e)
    with b 1 show ?thesis by (simp add: final_def)
  next
    case (Inr u)
    obtain r' evs' w2 where l: "for_each body xs w1 = (r', evs', w2)"
      by (cases "for_each body xs w1") auto
    with Cons [of w1] have "store w2 = store w1"
      by (simp add: final_def)
    with b 1 Inr l show ?thesis
      by (simp add: final_def)
  qed
qed

lemma construct_page_store:
  assumes "entities_read_only store env"
  shows "store (final (construct_page env max_str_digits x w)) = store w"
proof -
  from assms have "store (snd (Page_from_id env n w)) = store w"
    and "store (snd (Page_from_url env x w)) = store w" for n
    by (simp_all add: entities_read_only_def)
  then have "store (final (call (PageFromId n) (Page_from_id env n) w)) = store w"
    and "store (final (call (PageFromUrl x) (Page_from_url env x) w)) = store w" for n
    by (simp_all add: call_store)
  then show ?thesis
    by (cases "py_int max_str_digits x") (auto simp: construct_page_def final_triple)
qed

lemma steps_store:
  assumes "entities_read_only store env"
  shows "store (final (pages_step env max_str_digits x w)) = store w"
    and "store (final (pages_with_descendants_step env max_str_digits x w)) = store w"
    and "store (final (spaces_step env x w)) = store w"
    and "store (final (all_spaces_step env w)) = store w"
proof -
  from assms have e: "store (snd (Page_export env p w')) = store w'"
    "store (snd (Page_export_with_descendants env p w')) = store w'"
    "store (snd (Space_from_key env k w')) = store w'"
    "store (snd (Space_export env s w')) = store w'"
    "store (snd (Organization_from_api env w')) = store w'"
    "store (snd (Organization_export env org w')) = store w'" for p k s org w'
    by (simp_all add: entities_read_only_def)
  show "store (final (pages_step env max_str_digits x w)) = store w"
    unfolding pages_step_def
    by (rule then_do_store) (simp_all add: construct_page_store [OF assms] call_store e)
  show "store (final (pages_with_descendants_step env max_str_digits x w)) = store w"
    unfolding pages_with_descendants_step_def
    by (rule then_do_store) (simp_all add: construct_page_store [OF assms] call_store e)
  show "store (final (spaces_step env x w)) = store w"
    unfolding spaces_step_def
    by (rule then_do_store) (simp_all add: call_store e)
  show "store (final (all_spaces_step env w)) = store w"
    unfolding all_spaces_step_def
    by (rule then_do_store) (simp_all add: call_store e)
qed

lemma command_store_absent:
  assumes "\<And>w'. store (final (body w')) = store w'"
  shows "store (final (measure_ctx label
      (then_do (override_output_path_config env None w) (\<lambda>u. body)))) = store w"
  by (simp add: command_absent final_measure_ctx assms)

lemma command_store_present:
  assumes "set_setting_writes store env"
    and "fst (set_setting env output_path_key v w) = Inr ()"
    and "\<And>w'. store (final (body w')) = store w'"
  shows "store (final (measure_ctx label
      (then_do (override_output_path_config env (Some v) w) (\<lambda>u. body))))
    = (store w)(output_path_key \<mapsto> v)"
proof -
  obtain w0 where s: "set_setting env output_path_key v w = (Inr (), w0)"
    using assms(2) by (cases "set_setting env output_path_key v w") auto
  with assms(1) have "store w0 = (store w)(output_path_key \<mapsto> v)"
    unfolding set_setting_writes_def by (metis assms(2) snd_conv)
  moreover have "store (final (body w0)) = store w0"
    by (rule assms(3))
  ultimately show ?thesis
    using s
    by (cases "body w0")
      (simp add: override_output_path_config_def call_def then_do_def measure_ctx_def final_def)
qed

text \<open>
  C7. For each of the four export commands and whatever the collaborators do. Run
  without an output path, the command is its batch in its scope, run from the state
  it was started in: \<^verbatim>\<open>set_setting\<close> is not called and no setting is written. Run
  with the output path \<open>v\<close>, the command calls \<^verbatim>\<open>set_setting\<close> with the key
  \<^verbatim>\<open>export.output_path\<close> and \<open>v\<close> on the state it was started in, and then runs its
  batch from the state that call left; the log starts with the scope and that call
  with its outcome, before any construction or export, and there is no other write
  of a setting in it, so the path is written once. For a store in which a returning
  \<^verbatim>\<open>set_setting\<close> puts the value under the key and which the entities do not write:
  without an output path the store the command leaves is the store it found, and
  with an output path whose write returned it is the store it found with \<open>v\<close> under
  \<^verbatim>\<open>export.output_path\<close>, whether the batch then returns or raises. The command
  does not set the path back.
\<close>

theorem output_path_written_once:
  "pages env max_str_digits xs None w
     = measure_ctx (ascii ''Export pages '' @ join (ascii '', '') xs)
         (for_each (pages_step env max_str_digits) xs w)
   \<and> pages_with_descendants env max_str_digits xs None w
     = measure_ctx (ascii ''Export pages '' @ join (ascii '', '') xs @ ascii '' with descendants'')
         (for_each (pages_with_descendants_step env max_str_digits) xs w)
   \<and> spaces env xs None w
     = measure_ctx (ascii ''Export spaces '' @ join (ascii '', '') (map normalize_space_key xs))
         (for_each (spaces_step env) (map normalize_space_key xs) w)
   \<and> all_spaces env None w = measure_ctx (ascii ''Export all spaces'') (all_spaces_step env w)
   \<and> setting_writes (events (pages env max_str_digits xs None w)) = []
   \<and> setting_writes (events (pages_with_descendants env max_str_digits xs None w)) = []
   \<and> setting_writes (events (spaces env xs None w)) = []
   \<and> setting_writes (events (all_spaces env None w)) = []
   \<and> pages env max_str_digits xs (Some v) w
     = measure_ctx (ascii ''Export pages '' @ join (ascii '', '') xs)
         (then_do (call (SetSetting output_path_key v) (set_setting env output_path_key v) w)
            (\<lambda>u. for_each (pages_step env max_str_digits) xs))
   \<and> pages_with_descendants env max_str_digits xs (Some v) w
     = measure_ctx (ascii ''Export pages '' @ join (ascii '', '') xs @ ascii '' with descendants'')
         (then_do (call (SetSetting output_path_key v) (set_setting env output_path_key v) w)
            (\<lambda>u. for_each (pages_with_descendants_step env max_str_digits) xs))
   \<and> spaces env xs (Some v) w
     = measure_ctx (ascii ''Export spaces '' @ join (ascii '', '') (map normalize_space_key xs))
         (then_do (call (SetSetting output_path_key v) (set_setting env output_path_key v) w)
            (\<lambda>u. for_each (spaces_step env) (map normalize_space_key xs)))
   \<and> all_spaces env (Some v) w
     = measure_ctx (ascii ''Export all spaces'')
         (then_do (call (SetSetting output_path_key v) (set_setting env output_path_key v) w)
            (\<lambda>u. all_spaces_step env))
   \<and> (\<exists>label rest.
        events (pages env max_str_digits xs (Some v) w)
          = MeasureEnter label
            # SetSetting output_path_key v (fst (set_setting env output_path_key v w)) # rest
        \<and> setting_writes rest = [])
   \<and> (\<exists>label rest.
        events (pages_with_descendants env max_str_digits xs (Some v) w)
          = MeasureEnter label
            # SetSetting output_path_key v (fst (set_setting env output_path_key v w)) # rest
        \<and> setting_writes rest = [])
   \<and> (\<exists>label rest.
        events (spaces env xs (Some v) w)
          = MeasureEnter label
            # SetSetting output_path_key v (fst (set_setting env output_path_key v w)) # rest
        \<and> setting_writes rest = [])
   \<and> (\<exists>label rest.
        events (all_spaces env (Some v) w)
          = MeasureEnter label
            # SetSetting output_path_key v (fst (set_setting env output_path_key v w)) # rest
        \<and> setting_writes rest = [])
   \<and> (set_setting_writes store env \<and> entities_read_only store env \<longrightarrow>
        store (final (pages env max_str_digits xs None w)) = store w
        \<and> store (final (pages_with_descendants env max_str_digits xs None w)) = store w
        \<and> store (final (spaces env xs None w)) = store w
        \<and> store (final (all_spaces env None w)) = store w
        \<and> (fst (set_setting env output_path_key v w) = Inr () \<longrightarrow>
             store (final (pages env max_str_digits xs (Some v) w))
               = (store w)(output_path_key \<mapsto> v)
             \<and> store (final (pages_with_descendants env max_str_digits xs (Some v) w))
               = (store w)(output_path_key \<mapsto> v)
             \<and> store (final (spaces env xs (Some v) w)) = (store w)(output_path_key \<mapsto> v)
             \<and> store (final (all_spaces env (Some v) w)) = (store w)(output_path_key \<mapsto> v)))"
proof (intro conjI impI)
  show "pages env max_str_digits xs None w
     = measure_ctx (ascii ''Export pages '' @ join (ascii '', '') xs)
         (for_each (pages_step env max_str_digits) xs w)"
    unfolding pages_def by (rule command_absent)
  show "pages_with_descendants env max_str_digits xs None w
     = measure_ctx (ascii ''Export pages '' @ join (ascii '', '') xs @ ascii '' with descendants'')
         (for_each (pages_with_descendants_step env max_str_digits) xs w)"
    unfolding pages_with_descendants_def by (rule command_absent)
  show "spaces env xs None w
     = measure_ctx (ascii ''Export spaces '' @ join (ascii '', '') (map normalize_space_key xs))
         (for_each (spaces_step env) (map normalize_space_key xs) w)"
    unfolding spaces_def Let_def by (rule command_absent)
  show "all_spaces env None w = measure_ctx (ascii ''Export all spaces'') (all_spaces_step env w)"
    unfolding all_spaces_def by (rule command_absent)
  show "setting_writes (events (pages env max_str_digits xs None w)) = []"
    unfolding pages_def by (rule command_without_path) (rule loops_no_writes)
  show "setting_writes (events (pages_with_descendants env max_str_digits xs None w)) = []"
    unfolding pages_with_descendants_def by (rule command_without_path) (rule loops_no_writes)
  show "setting_writes (events (spaces env xs None w)) = []"
    unfolding spaces_def Let_def by (rule command_without_path) (rule loops_no_writes)
  show "setting_writes (events (all_spaces env None w)) = []"
    unfolding all_spaces_def by (rule command_without_path) (rule all_spaces_step_no_writes)
  show "pages env max_str_digits xs (Some v) w
     = measure_ctx (ascii ''Export pages '' @ join (ascii '', '') xs)
         (then_do (call (SetSetting output_path_key v) (set_setting env output_path_key v) w)
            (\<lambda>u. for_each (pages_step env max_str_digits) xs))"
    unfolding pages_def by (rule command_present)
  show "pages_with_descendants env max_str_digits xs (Some v) w
     = measure_ctx (ascii ''Export pages '' @ join (ascii '', '') xs @ ascii '' with descendants'')
         (then_do (call (SetSetting output_path_key v) (set_setting env output_path_key v) w)
            (\<lambda>u. for_each (pages_with_descendants_step env max_str_digits) xs))"
    unfolding pages_with_descendants_def by (rule command_present)
  show "spaces env xs (Some v) w
     = measure_ctx (ascii ''Export spaces '' @ join (ascii '', '') (map normalize_space_key xs))
         (then_do (call (SetSetting output_path_key v) (set_setting env output_path_key v) w)
            (\<lambda>u. for_each (spaces_step env) (map normalize_space_key xs)))"
    unfolding spaces_def Let_def by (rule command_present)
  show "all_spaces env (Some v) w
     = measure_ctx (ascii ''Export all spaces'')
         (then_do (call (SetSetting output_path_key v) (set_setting env output_path_key v) w)
            (\<lambda>u. all_spaces_step env))"
    unfolding all_spaces_def by (rule command_present)
  show "\<exists>label rest.
        events (pages env max_str_digits xs (Some v) w)
          = MeasureEnter label
            # SetSetting output_path_key v (fst (set_setting env output_path_key v w)) # rest
        \<and> setting_writes rest = []"
    unfolding pages_def by (rule exI, rule command_with_path) (rule loops_no_writes)
  show "\<exists>label rest.
        events (pages_with_descendants env max_str_digits xs (Some v) w)
          = MeasureEnter label
            # SetSetting output_path_key v (fst (set_setting env output_path_key v w)) # rest
        \<and> setting_writes rest = []"
    unfolding pages_with_descendants_def
    by (rule exI, rule command_with_path) (rule loops_no_writes)
  show "\<exists>label rest.
        events (spaces env xs (Some v) w)
          = MeasureEnter label
            # SetSetting output_path_key v (fst (set_setting env output_path_key v w)) # rest
        \<and> setting_writes rest = []"
    unfolding spaces_def Let_def by (rule exI, rule command_with_path) (rule loops_no_writes)
  show "\<exists>label rest.
        events (all_spaces env (Some v) w)
          = MeasureEnter label
            # SetSetting output_path_key v (fst (set_setting env output_path_key v w)) # rest
        \<and> setting_writes rest = []"
    unfolding all_spaces_def by (rule exI, rule command_with_path) (rule all_spaces_step_no_writes)
next
  assume a: "set_setting_writes store env \<and> entities_read_only store env"
  then have ro: "entities_read_only store env" by simp
  note loops = for_each_store [of store, OF steps_store(1) [OF ro]]
    for_each_store [of store, OF steps_store(2) [OF ro]]
    for_each_store [of store, OF steps_store(3) [OF ro]]
  show "store (final (pages env max_str_digits xs None w)) = store w"
    unfolding pages_def by (rule command_store_absent) (rule loops)
  show "store (final (pages_with_descendants env max_str_digits xs None w)) = store w"
    unfolding pages_with_descendants_def by (rule command_store_absent) (rule loops)
  show "store (final (spaces env xs None w)) = store w"
    unfolding spaces_def Let_def by (rule command_store_absent) (rule loops)
  show "store (final (all_spaces env None w)) = store w"
    unfolding all_spaces_def by (rule command_store_absent) (rule steps_store(4) [OF ro])
next
  assume a: "set_setting_writes store env \<and> entities_read_only store env"
    and r: "fst (set_setting env output_path_key v w) = Inr ()"
  from a have wr: "set_setting_writes store env" and ro: "entities_read_only store env"
    by simp_all
  note loops = for_each_store [of store, OF steps_store(1) [OF ro]]
    for_each_store [of store, OF steps_store(2) [OF ro]]
    for_each_store [of store, OF steps_store(3) [OF ro]]
  show "store (final (pages env max_str_digits xs (Some v) w)) = (store w)(output_path_key \<mapsto> v)"
    unfolding pages_def by (rule command_store_present [OF wr r]) (rule loops)
  show "store (final (pages_with_descendants env max_str_digits xs (Some v) w))
      = (store w)(output_path_key \<mapsto> v)"
    unfolding pages_with_descendants_def by (rule command_store_present [OF wr r]) (rule loops)
  show "store (final (spaces env xs (Some v) w)) = (store w)(output_path_key \<mapsto> v)"
    unfolding spaces_def Let_def by (rule command_store_present [OF wr r]) (rule loops)
  show "store (final (all_spaces env (Some v) w)) = (store w)(output_path_key \<mapsto> v)"
    unfolding all_spaces_def
    by (rule command_store_present [OF wr r]) (rule steps_store(4) [OF ro])
qed

lemma store_stub_simps:
  "set_setting (store_stub f) k v w =
     (if f = Some (snd w) then (Inl (Raised ''stub''), (fst w, Suc (snd w)))
      else (Inr (), ((fst w)(k \<mapsto> v), Suc (snd w))))"
  "Page_from_id (store_stub f) n = store_call f (PageOfId n)"
  "Page_from_url (store_stub f) u = store_call f (PageOfUrl u)"
  "Page_export (store_stub f) p = store_call f ()"
  "Page_export_with_descendants (store_stub f) p = store_call f ()"
  "Space_from_key (store_stub f) k = store_call f k"
  "Space_export (store_stub f) sp = store_call f ()"
  "Organization_from_api (store_stub f) = store_call f ()"
  "Organization_export (store_stub f) org = store_call f ()"
  by (simp_all add: store_stub_def)

lemma store_stub_store:
  "set_setting_writes fst (store_stub f)" "entities_read_only fst (store_stub f)"
  by (simp_all add: set_setting_writes_def entities_read_only_def store_stub_simps store_call_def)

theorem output_path_written_once_witness:
  "pages (store_stub (Some 2)) default_max_str_digits [ascii ''1'', ascii ''2'']
       (Some (ascii ''/tmp/out'')) (Map.empty, 0)
     = (Inl (Raised ''stub''),
        [MeasureEnter (ascii ''Export pages 1, 2''),
         SetSetting output_path_key (ascii ''/tmp/out'') (Inr ()),
         PageFromId 1 (Inr (PageOfId 1)), PageExport (PageOfId 1) (Inl (Raised ''stub'')),
         MeasureExit (ascii ''Export pages 1, 2'')],
        ([output_path_key \<mapsto> ascii ''/tmp/out''], 3))
   \<and> fst (final (pages (store_stub (Some 2)) default_max_str_digits [ascii ''1'', ascii ''2'']
         (Some (ascii ''/tmp/out'')) (Map.empty, 0)))
     = [output_path_key \<mapsto> ascii ''/tmp/out'']
   \<and> setting_writes (events (pages (store_stub (Some 2)) default_max_str_digits
         [ascii ''1'', ascii ''2''] (Some (ascii ''/tmp/out'')) (Map.empty, 0)))
     = [(output_path_key, ascii ''/tmp/out'')]
   \<and> fst (final (all_spaces (store_stub None) None ([output_path_key \<mapsto> ascii ''/old''], 0)))
     = [output_path_key \<mapsto> ascii ''/old'']
   \<and> setting_writes (events (all_spaces (store_stub None) None
         ([output_path_key \<mapsto> ascii ''/old''], 0))) = []"
proof -
  let ?run = "pages (store_stub (Some 2)) default_max_str_digits [ascii ''1'', ascii ''2'']
    (Some (ascii ''/tmp/out'')) (Map.empty, 0)"
  have c: "construct_page (store_stub (Some 2)) default_max_str_digits (ascii ''1'') w
      = call (PageFromId 1) (Page_from_id (store_stub (Some 2)) 1) w" for w
    using construct_page_ascii [of "ascii ''1''" default_max_str_digits "store_stub (Some 2)" w]
    by (simp add: ascii_def ascii_digit_def digits_refused_def parseInt_def)
  have j: "ascii ''Export pages '' @ join (ascii '', '') [ascii ''1'', ascii ''2'']
      = ascii ''Export pages 1, 2''"
    by (simp add: ascii_def)
  have run: "?run
     = (Inl (Raised ''stub''),
        [MeasureEnter (ascii ''Export pages 1, 2''),
         SetSetting output_path_key (ascii ''/tmp/out'') (Inr ()),
         PageFromId 1 (Inr (PageOfId 1)), PageExport (PageOfId 1) (Inl (Raised ''stub'')),
         MeasureExit (ascii ''Export pages 1, 2'')],
        ([output_path_key \<mapsto> ascii ''/tmp/out''], 3))"
    unfolding pages_def j
    by (simp add: override_output_path_config_def pages_step_def c then_do_def call_def
        store_stub_simps store_call_def measure_ctx_def)
  have r: "fst (set_setting (store_stub (Some 2)) output_path_key (ascii ''/tmp/out'')
      (Map.empty, 0)) = Inr ()"
    by (simp add: store_stub_simps)
  note t = output_path_written_once
    [where env = "store_stub (Some 2)" and max_str_digits = default_max_str_digits
      and xs = "[ascii ''1'', ascii ''2'']" and v = "ascii ''/tmp/out''"
      and w = "(Map.empty, 0)" and store = fst]
  from t store_stub_store [of "Some 2"] r
  have 1: "fst (final ?run) = (fst (Map.empty, 0 :: nat))(output_path_key \<mapsto> ascii ''/tmp/out'')"
    by blast
  note u = output_path_written_once
    [where env = "store_stub None" and w = "([output_path_key \<mapsto> ascii ''/old''], 0)"
      and store = fst]
  from u store_stub_store [of None]
  have 2: "fst (final (all_spaces (store_stub None) None
      ([output_path_key \<mapsto> ascii ''/old''], 0)))
      = fst ([output_path_key \<mapsto> ascii ''/old''], 0 :: nat)"
    by blast
  from u have 3: "setting_writes (events (all_spaces (store_stub None) None
      ([output_path_key \<mapsto> ascii ''/old''], 0))) = []"
    by blast
  have 4: "setting_writes (events ?run) = [(output_path_key, ascii ''/tmp/out'')]"
    by (simp add: run events_def setting_writes_def)
  from run 1 2 3 4 show ?thesis
    by simp
qed

section \<open>Blank tokens and digits that are not decimal\<close>

lemma blank_not_isdigit: "s = [] \<or> list_all isspace_char s \<Longrightarrow> \<not> isdigit s"
proof (cases s)
  case Nil
  then show ?thesis by (simp add: isdigit_def)
next
  case (Cons c cs)
  assume "s = [] \<or> list_all isspace_char s"
  with Cons have "isspace_char c" by simp
  then have "\<not> isdigit_char c" by (rule isspace_not_digit)
  with Cons show ?thesis by (simp add: isdigit_def)
qed

lemma url_step_calls:
  assumes "\<not> isdigit s"
  shows "from_url_calls (events (pages_step env max_str_digits s w)) = [s]"
    and "from_id_calls (events (pages_step env max_str_digits s w)) = []"
    and "from_url_calls (events (pages_with_descendants_step env max_str_digits s w)) = [s]"
    and "from_id_calls (events (pages_with_descendants_step env max_str_digits s w)) = []"
  using assms
  by (auto simp: pages_step_def pages_with_descendants_step_def construct_page_url then_do_def
      call_def events_def from_url_calls_def from_id_calls_def split: prod.splits sum.splits)

lemma single_batch_events:
  "events (measure_ctx label
      (then_do (override_output_path_config env None w) (\<lambda>u. for_each body [x])))
    = MeasureEnter label # events (body x w) @ [MeasureExit label]"
  by (simp add: override_output_path_config_def then_do_def measure_ctx_def events_def
      split: prod.splits sum.splits)

lemma calls_scope:
  "from_url_calls (MeasureEnter label # evs @ [MeasureExit label]) = from_url_calls evs"
  "from_id_calls (MeasureEnter label # evs @ [MeasureExit label]) = from_id_calls evs"
  by (simp_all add: from_url_calls_def from_id_calls_def)

text \<open>
  C10. A token that is empty or consists of whitespace only is taken as a URL, in
  \<^verbatim>\<open>pages\<close> and in \<^verbatim>\<open>pages_with_descendants\<close>: \<^verbatim>\<open>isdigit\<close> is false for it, so
  \<^verbatim>\<open>Page.from_url\<close> is called with the token as it is and \<^verbatim>\<open>Page.from_id\<close> is
  not called.
\<close>

theorem blank_token_is_url:
  assumes "s = [] \<or> list_all isspace_char s"
  shows "resolve max_str_digits s = Inr (Url s)
    \<and> construct_page env max_str_digits s w = call (PageFromUrl s) (Page_from_url env s) w
    \<and> from_url_calls (events (pages env max_str_digits [s] None w)) = [s]
    \<and> from_id_calls (events (pages env max_str_digits [s] None w)) = []
    \<and> from_url_calls (events (pages_with_descendants env max_str_digits [s] None w)) = [s]
    \<and> from_id_calls (events (pages_with_descendants env max_str_digits [s] None w)) = []"
proof -
  from assms have n: "\<not> isdigit s"
    by (rule blank_not_isdigit)
  then show ?thesis
    by (simp add: resolve_not_isdigit construct_page_url pages_def pages_with_descendants_def
        single_batch_events calls_scope url_step_calls)
qed

theorem blank_token_is_url_witness:
  "resolve default_max_str_digits [0x20, 0x09, 0x3000] = Inr (Url [0x20, 0x09, 0x3000])
   \<and> from_url_calls (events (pages (stub None) default_max_str_digits [[]] None 0)) = [[]]
   \<and> from_id_calls (events (pages (stub None) default_max_str_digits [[]] None 0)) = []
   \<and> pages_with_descendants (stub None) default_max_str_digits [[0x20, 0x09, 0x3000]] None 0
     = (Inr (),
        [MeasureEnter (ascii ''Export pages '' @ [0x20, 0x09, 0x3000] @ ascii '' with descendants''),
         PageFromUrl [0x20, 0x09, 0x3000] (Inr (PageOfUrl [0x20, 0x09, 0x3000])),
         PageExportWithDescendants (PageOfUrl [0x20, 0x09, 0x3000]) (Inr ()),
         MeasureExit (ascii ''Export pages '' @ [0x20, 0x09, 0x3000] @ ascii '' with descendants'')],
        2)"
proof -
  have b: "[0x20, 0x09, 0x3000] = [] \<or> list_all isspace_char [0x20, 0x09, 0x3000]"
    by (simp add: isspace_char_def whitespace_ranges_def)
  have e: "([] :: str) = [] \<or> list_all isspace_char []"
    by simp
  note 1 = blank_token_is_url [OF b, of default_max_str_digits "stub None" 0]
  note 2 = blank_token_is_url [OF e, of default_max_str_digits "stub None" 0]
  from 1 have c: "construct_page (stub None) default_max_str_digits [0x20, 0x09, 0x3000] 0
      = call (PageFromUrl [0x20, 0x09, 0x3000]) (Page_from_url (stub None) [0x20, 0x09, 0x3000]) 0"
    by simp
  have "pages_with_descendants (stub None) default_max_str_digits [[0x20, 0x09, 0x3000]] None 0
     = (Inr (),
        [MeasureEnter (ascii ''Export pages '' @ [0x20, 0x09, 0x3000] @ ascii '' with descendants''),
         PageFromUrl [0x20, 0x09, 0x3000] (Inr (PageOfUrl [0x20, 0x09, 0x3000])),
         PageExportWithDescendants (PageOfUrl [0x20, 0x09, 0x3000]) (Inr ()),
         MeasureExit (ascii ''Export pages '' @ [0x20, 0x09, 0x3000] @ ascii '' with descendants'')],
        2)"
    by (simp add: pages_with_descendants_def pages_with_descendants_step_def c run_simps
        measure_ctx_run)
  with 1 2 show ?thesis
    by simp
qed

text \<open>
  C4 fails on the code. The token of the one character U+00B2 (superscript two) is
  not empty; \<^verbatim>\<open>isdigit\<close> is true for it, as the character is a digit though not a
  decimal digit, and \<^verbatim>\<open>int\<close> raises \<^verbatim>\<open>ValueError\<close> on it. So resolution raises, no
  constructor is called, and both page commands end with \<^verbatim>\<open>ValueError\<close>.
\<close>

theorem superscript_two_raises:
  "isdigit [0xB2]
   \<and> resolve max_str_digits [0xB2] = Inl ValueError
   \<and> construct_page env max_str_digits [0xB2] w = (Inl ValueError, [], w)
   \<and> pages env max_str_digits [[0xB2]] None w
     = (Inl ValueError,
        [MeasureEnter (ascii ''Export pages '' @ [0xB2]),
         MeasureExit (ascii ''Export pages '' @ [0xB2])], w)
   \<and> pages_with_descendants env max_str_digits [[0xB2]] None w
     = (Inl ValueError,
        [MeasureEnter (ascii ''Export pages '' @ [0xB2] @ ascii '' with descendants''),
         MeasureExit (ascii ''Export pages '' @ [0xB2] @ ascii '' with descendants'')], w)"
proof -
  have a: "isdigit [0xB2]"
    by (simp add: isdigit_def isdigit_char_def other_digit_ranges_def)
  have "\<not> list_all isdecimal_char [0xB2]"
    by (simp add: isdecimal_char_def decimal_ranges_def)
  with a have r: "resolve max_str_digits [0xB2] = Inl ValueError"
    by (simp add: resolve_def py_int_isdigit)
  then have c: "\<And>w. construct_page env max_str_digits [0xB2] w = (Inl ValueError, [], w)"
    by (simp add: construct_page_resolve)
  from a r c show ?thesis
    by (simp add: pages_def pages_with_descendants_def pages_step_def
        pages_with_descendants_step_def override_output_path_config_def then_do_def
        measure_ctx_def)
qed

end
